theory Spec2Isabelle
  imports Complex_Main
begin

section \<open>Values, errors and dates\<close>

text \<open>
  A float64 cell of a pandas column is a real number or NaN (also NaT in a datetime
  column); \<open>None\<close> is NaN. Arithmetic is the arithmetic of the reals (no rounding),
  and NaN propagates through every operation. A division by zero gives \<open>None\<close>:
  numpy gives NaN for 0/0 and an infinity for x/0 with x nonzero, and infinities are not
  represented. Integer columns are embedded in the reals.
\<close>

type_synonym cell = "real option"

definition cadd :: "cell \<Rightarrow> cell \<Rightarrow> cell" where
  "cadd a b = (case a of None \<Rightarrow> None | Some x \<Rightarrow> (case b of None \<Rightarrow> None | Some y \<Rightarrow> Some (x + y)))"

definition csub :: "cell \<Rightarrow> cell \<Rightarrow> cell" where
  "csub a b = (case a of None \<Rightarrow> None | Some x \<Rightarrow> (case b of None \<Rightarrow> None | Some y \<Rightarrow> Some (x - y)))"

definition cmul :: "cell \<Rightarrow> cell \<Rightarrow> cell" where
  "cmul a b = (case a of None \<Rightarrow> None | Some x \<Rightarrow> (case b of None \<Rightarrow> None | Some y \<Rightarrow> Some (x * y)))"

definition cdiv :: "cell \<Rightarrow> cell \<Rightarrow> cell" where
  "cdiv a b = (case a of None \<Rightarrow> None | Some x \<Rightarrow>
     (case b of None \<Rightarrow> None | Some y \<Rightarrow> (if y = 0 then None else Some (x / y))))"

definition cexp :: "cell \<Rightarrow> cell" where
  "cexp a = map_option exp a"

text \<open>The exceptions the modelled code can raise.\<close>

datatype error =
    EmptySequence      \<comment> \<open>ValueError: min() or max() of an empty sequence\<close>
  | KeyError           \<comment> \<open>a label or a column that is not there\<close>
  | DuplicateAxis      \<comment> \<open>ValueError: cannot reindex on an axis with duplicate labels\<close>
  | IntCastingNaN      \<comment> \<open>ValueError: cannot convert non-finite values (NA or inf) to integer\<close>
  | DateError          \<comment> \<open>OutOfBoundsDatetime, or the parser's error on a string that is no date\<close>
  | InvalidIndexError  \<comment> \<open>reindexing only valid with uniquely valued index objects\<close>
  | FileNotFoundError  \<comment> \<open>an input file that is not there\<close>
  | ConnectionError    \<comment> \<open>the request to the API failed\<close>
  | OSError            \<comment> \<open>a file that cannot be written\<close>

text \<open>Exceptions pass through a sequence of steps: the first one raised ends it.\<close>

definition bind :: "error + 'a \<Rightarrow> ('a \<Rightarrow> error + 'b) \<Rightarrow> error + 'b" where
  "bind m f = (case m of Inl e \<Rightarrow> Inl e | Inr x \<Rightarrow> f x)"

text \<open>
  A date is its day number in the proleptic Gregorian calendar (\<open>date.toordinal\<close>:
  1 January of year 1 is day 1), and a timestamp at midnight is the day number of its
  date; so an index of dates is a list of day numbers. \<open>mkdate\<close> is the date of a year,
  a month (1 to 12) and a day, counted as \<open>datetime\<close> counts it; \<open>year\<close> is the year
  of a date (the \<open>.dt.year\<close> accessor), computed from the day number as \<open>datetime\<close>
  computes it, by cycles of 400, 100, 4 and 1 years.
\<close>

type_synonym date = int

type_synonym daynum = int

definition is_leap :: "int \<Rightarrow> bool" where
  "is_leap y = (y mod 4 = 0 \<and> (y mod 100 \<noteq> 0 \<or> y mod 400 = 0))"

definition days_before_year :: "int \<Rightarrow> int" where
  "days_before_year y = (y - 1) * 365 + (y - 1) div 4 - (y - 1) div 100 + (y - 1) div 400"

definition days_before_month :: "int \<Rightarrow> int \<Rightarrow> int" where
  "days_before_month y m =
     [0, 31, 59, 90, 120, 151, 181, 212, 243, 273, 304, 334] ! nat (m - 1)
       + (if m > 2 \<and> is_leap y then 1 else 0)"

definition mkdate :: "int \<Rightarrow> int \<Rightarrow> int \<Rightarrow> date" where
  "mkdate y m d = days_before_year y + days_before_month y m + d"

definition toordinal :: "date \<Rightarrow> daynum" where
  "toordinal d = d"

definition year :: "date \<Rightarrow> int" where
  "year n =
     (let n0 = n - 1;
          n400 = n0 div 146097; r400 = n0 mod 146097;
          n100 = r400 div 36524; r100 = r400 mod 36524;
          n4 = r100 div 1461; r4 = r100 mod 1461;
          n1 = r4 div 365;
          y = n400 * 400 + 1 + n100 * 100 + n4 * 4 + n1
      in if n1 = 4 \<or> n100 = 4 then y - 1 else y)"

section \<open>Calendar Builder\<close>

text \<open>
  \<open>min(self.years)\<close> and \<open>max(self.years)\<close>: Python raises ValueError on an empty
  sequence.
\<close>

fun py_min :: "int list \<Rightarrow> error + int" where
  "py_min [] = Inl EmptySequence"
| "py_min (x # xs) = Inr (fold min xs x)"

fun py_max :: "int list \<Rightarrow> error + int" where
  "py_max [] = Inl EmptySequence"
| "py_max (x # xs) = Inr (fold max xs x)"

text \<open>
  \<open>pd.date_range(start, end)\<close> with the default daily frequency: every day from start
  to end, both included, in order; empty when end is before start.
\<close>

definition date_range :: "daynum \<Rightarrow> daynum \<Rightarrow> daynum list" where
  "date_range s e = [s..e]"

text \<open>
  The year the date parser reads from \<open>str(y)\<close> at the end of \<open>'1/1/'\<close> or
  \<open>'31/12/'\<close>. A year of three or four digits is read as it stands. A year of one or
  two digits is taken for a year of the century of the clock, moved by a century when
  that is 50 years or more after the clock's year or more than 50 years before it;
  \<open>this_year\<close> is the year of the clock. A negative number or one of five digits is no
  year at all.
\<close>

definition parse_year :: "int \<Rightarrow> int \<Rightarrow> error + int" where
  "parse_year this_year y =
     (if y < 0 \<or> 9999 < y then Inl DateError
      else if 100 \<le> y then Inr y
      else (let c = this_year div 100 * 100 + y
            in if this_year + 50 \<le> c then Inr (c - 100)
               else if c < this_year - 50 then Inr (c + 100)
               else Inr c))"

text \<open>
  A pandas timestamp counts nanoseconds in 64 bits: it holds the days from
  22 September 1677 to 11 April 2262, and a date outside raises.
\<close>

definition Timestamp :: "date \<Rightarrow> error + daynum" where
  "Timestamp d =
     (if mkdate 1677 9 22 \<le> d \<and> d \<le> mkdate 2262 4 11 then Inr (toordinal d) else Inl DateError)"

text \<open>
  Line 168 of \<open>sm_utils.py\<close>:
  \<open>idx = pd.date_range(start='1/1/'+str(min(self.years)), end='31/12/'+str(max(self.years)))\<close>.
  Both strings are built first, then the start is parsed and then the end.
\<close>

definition calendar :: "int \<Rightarrow> int list \<Rightarrow> error + daynum list" where
  "calendar this_year years =
     bind (py_min years) (\<lambda>lo.
     bind (py_max years) (\<lambda>hi.
     bind (parse_year this_year lo) (\<lambda>ys.
     bind (Timestamp (mkdate ys 1 1)) (\<lambda>s.
     bind (parse_year this_year hi) (\<lambda>ye.
     bind (Timestamp (mkdate ye 12 31)) (\<lambda>e.
       Inr (date_range s e)))))))"

section \<open>Columns and frames\<close>

text \<open>
  A column is a list of cells; an operator between two columns works row by row.
  \<open>shift(1)\<close> moves every value one row down and leaves NaN in the first row.
\<close>

definition col2 :: "('a \<Rightarrow> 'b \<Rightarrow> 'c) \<Rightarrow> 'a list \<Rightarrow> 'b list \<Rightarrow> 'c list" where
  "col2 f xs ys = map (\<lambda>(x, y). f x y) (zip xs ys)"

definition shift1 :: "'a option list \<Rightarrow> 'a option list" where
  "shift1 xs = (case xs of [] \<Rightarrow> [] | _ # _ \<Rightarrow> None # butlast xs)"

text \<open>
  \<open>col[0]\<close> and \<open>col[0] = v\<close> on a column: label 0 of the default integer index before the
  frame is reindexed, position 0 of a date-indexed column after it. Either way the first
  row, and an exception when there is none.
\<close>

definition get_first :: "'a list \<Rightarrow> error + 'a" where
  "get_first xs = (case xs of [] \<Rightarrow> Inl KeyError | x # _ \<Rightarrow> Inr x)"

definition set_first :: "'a \<Rightarrow> 'a list \<Rightarrow> error + 'a list" where
  "set_first v xs = (case xs of [] \<Rightarrow> Inl KeyError | _ # r \<Rightarrow> Inr (v # r))"

text \<open>
  \<open>reindex(idx)\<close>: the row of every label of \<open>idx\<close>, NaN where the frame has no such
  label. pandas refuses to reindex a frame whose own index has a label twice.
\<close>

definition reindex_col :: "daynum list \<Rightarrow> 'a option list \<Rightarrow> daynum list \<Rightarrow> 'a option list" where
  "reindex_col keys col idx =
     map (\<lambda>d. case map_of (zip keys col) d of None \<Rightarrow> None | Some c \<Rightarrow> c) idx"

text \<open>\<open>ffill\<close> carries the last value seen forward over NaN; \<open>bfill\<close> the next one backward.\<close>

fun ffill_from :: "'a option \<Rightarrow> 'a option list \<Rightarrow> 'a option list" where
  "ffill_from prev [] = []"
| "ffill_from prev (None # xs) = prev # ffill_from prev xs"
| "ffill_from prev (Some v # xs) = Some v # ffill_from (Some v) xs"

definition ffill :: "'a option list \<Rightarrow> 'a option list" where
  "ffill xs = ffill_from None xs"

definition bfill :: "'a option list \<Rightarrow> 'a option list" where
  "bfill xs = rev (ffill (rev xs))"

text \<open>
  \<open>((a - b) / np.timedelta64(1, 'D')).astype(int)\<close> on two columns of dates: the difference
  in days, a whole number, as an integer; the cast raises when a row is NaN (one of the
  two dates is NaT).
\<close>

definition day_diff :: "daynum option \<Rightarrow> daynum option \<Rightarrow> int option" where
  "day_diff a b = (case a of None \<Rightarrow> None | Some x \<Rightarrow> (case b of None \<Rightarrow> None | Some y \<Rightarrow> Some (x - y)))"

definition astype_int :: "int option list \<Rightarrow> error + int list" where
  "astype_int xs = (if None \<in> set xs then Inl IntCastingNaN else Inr (map the xs))"

definition int_col :: "int list \<Rightarrow> cell list" where
  "int_col xs = map (\<lambda>k. Some (real_of_int k)) xs"

text \<open>
  A frame: its index (day numbers for an index of dates, row positions for an integer
  index), the name of the index (empty when it has none) and its named columns, in order.
\<close>

record frame =
  index :: "int list"
  index_name :: string
  columns :: "(string \<times> cell list) list"

section \<open>LAI Reconstructor\<close>

text \<open>A row of the MODIS file, with the columns \<open>Date\<close>, \<open>SITE_ID\<close>, \<open>LAI\<close>, \<open>Confidence\<close>.\<close>

record sample =
  Date :: date
  SITE_ID :: string
  LAI :: real
  Confidence :: int

text \<open>
  Lines 156 to 158: the rows of the site and of the requested years, sorted by date, with
  a fresh integer index.
\<close>

definition select_samples :: "int list \<Rightarrow> string \<Rightarrow> sample list \<Rightarrow> sample list" where
  "select_samples years site rows =
     sort_key (\<lambda>s. toordinal (Date s))
       (filter (\<lambda>s. year (Date s) \<in> set years) (filter (\<lambda>s. SITE_ID s = site) rows))"

text \<open>
  Line 160:
  \<open>CALC = LAI.shift(1) + (LAI - LAI.shift(1)) / (Confidence + 1)\<close>,
  and line 161: \<open>CALC[0] = LAI[0]\<close>.
\<close>

definition CALC_raw :: "sample list \<Rightarrow> cell list" where
  "CALC_raw M =
     (let lai = map (\<lambda>s. Some (LAI s)) M;
          conf1 = map (\<lambda>s. Some (real_of_int (Confidence s + 1))) M
      in col2 cadd (shift1 lai) (col2 cdiv (col2 csub lai (shift1 lai)) conf1))"

definition CALC :: "sample list \<Rightarrow> error + cell list" where
  "CALC M = bind (get_first (map (\<lambda>s. Some (LAI s)) M)) (\<lambda>l0. set_first l0 (CALC_raw M))"

text \<open>The columns of the frame after lines 162 to 176: reindexed on the calendar and filled.\<close>

record modis =
  idx :: "daynum list"
  LAI_col :: "cell list"
  CALC_col :: "cell list"
  CALC2_col :: "cell list"
  Date2_col :: "daynum option list"
  Date0_col :: "daynum option list"

definition padded :: "int \<Rightarrow> int list \<Rightarrow> string \<Rightarrow> sample list \<Rightarrow> error + modis" where
  "padded this_year years site rows =
     (let M = select_samples years site rows;
          keys = map (\<lambda>s. toordinal (Date s)) M;
          lai = map (\<lambda>s. Some (LAI s)) M
      in bind (CALC M) (\<lambda>calc.
         let calc2 = calc;
             date2 = map Some keys
         in bind (get_first date2) (\<lambda>d0.
            bind (set_first d0 (shift1 date2)) (\<lambda>date0.
            bind (calendar this_year years) (\<lambda>cal.
              if \<not> distinct keys then Inl DuplicateAxis
              else Inr \<lparr>idx = cal,
                        LAI_col = reindex_col keys lai cal,
                        CALC_col = ffill (reindex_col keys calc cal),
                        CALC2_col = bfill (reindex_col keys calc2 cal),
                        Date2_col = bfill (reindex_col keys date2 cal),
                        Date0_col = ffill (reindex_col keys date0 cal)\<rparr>)))))"

text \<open>
  Lines 180 and 181, the triangle rule:
  \<open>LAI_pred = CALC2 + (CALC - CALC2) * days(Date2 - index) / days(Date2 - Date0)\<close>,
  where \<open>*\<close> and \<open>/\<close> associate to the left; line 182:
  \<open>LAI_pred[0] = LAI[0]\<close>, read from the reindexed frame; line 183: the frame of the
  one column \<open>LAI_pred\<close>.
\<close>

definition triangle :: "modis \<Rightarrow> error + cell list" where
  "triangle m =
     bind (astype_int (col2 day_diff (Date2_col m) (map Some (idx m)))) (\<lambda>num.
     bind (astype_int (col2 day_diff (Date2_col m) (Date0_col m))) (\<lambda>den.
       Inr (col2 cadd (CALC2_col m)
              (col2 cdiv (col2 cmul (col2 csub (CALC_col m) (CALC2_col m)) (int_col num))
                 (int_col den)))))"

definition get_MODIS_data :: "int \<Rightarrow> int list \<Rightarrow> string \<Rightarrow> sample list \<Rightarrow> error + frame" where
  "get_MODIS_data this_year years site rows =
     bind (padded this_year years site rows) (\<lambda>m.
     bind (triangle m) (\<lambda>pred.
     bind (get_first (LAI_col m)) (\<lambda>l0.
     bind (set_first l0 pred) (\<lambda>pred'.
       Inr \<lparr>index = idx m, index_name = [], columns = [(''LAI_pred'', pred')]\<rparr>))))"

section \<open>Operations on frames\<close>

text \<open>\<open>x['name']\<close>: the column, KeyError when the frame has none of that name.\<close>

definition col :: "frame \<Rightarrow> string \<Rightarrow> error + cell list" where
  "col f n = (case map_of (columns f) n of None \<Rightarrow> Inl KeyError | Some c \<Rightarrow> Inr c)"

text \<open>
  \<open>assign(name=values)\<close>: a column of that name is replaced where it stands, a new one
  is appended. A scalar is broadcast over the rows by \<open>const_col\<close>.
\<close>

fun put_col :: "string \<Rightarrow> cell list \<Rightarrow> (string \<times> cell list) list \<Rightarrow> (string \<times> cell list) list" where
  "put_col n v [] = [(n, v)]"
| "put_col n v ((m, c) # cs) = (if m = n then (n, v) # cs else (m, c) # put_col n v cs)"

definition assign :: "string \<Rightarrow> cell list \<Rightarrow> frame \<Rightarrow> frame" where
  "assign n v f = f\<lparr>columns := put_col n v (columns f)\<rparr>"

definition const_col :: "frame \<Rightarrow> real \<Rightarrow> cell list" where
  "const_col f v = replicate (length (index f)) (Some v)"

text \<open>\<open>drop(columns=names)\<close>: KeyError when a name is not a column.\<close>

definition drop_cols :: "string list \<Rightarrow> frame \<Rightarrow> error + frame" where
  "drop_cols ns f =
     (if \<not> set ns \<subseteq> set (map fst (columns f)) then Inl KeyError
      else Inr (f\<lparr>columns := filter (\<lambda>(m, c). m \<notin> set ns) (columns f)\<rparr>))"

text \<open>\<open>transform(g)\<close> with a function of a column that works cell by cell.\<close>

definition transform :: "(cell \<Rightarrow> cell) \<Rightarrow> frame \<Rightarrow> frame" where
  "transform g f = f\<lparr>columns := map (\<lambda>(m, c). (m, map g c)) (columns f)\<rparr>"

text \<open>\<open>rename(columns={old: new})\<close>: a name that is not there is left alone.\<close>

definition rename :: "string \<Rightarrow> string \<Rightarrow> frame \<Rightarrow> frame" where
  "rename old new f = f\<lparr>columns := map (\<lambda>(m, c). (if m = old then new else m, c)) (columns f)\<rparr>"

text \<open>
  \<open>assign(name=range(len(x))).set_index(name)\<close>: the index becomes the row positions
  0, 1, ... under that name, and the old index is gone.
\<close>

definition index_by_position :: "string \<Rightarrow> frame \<Rightarrow> frame" where
  "index_by_position n f = f\<lparr>index := map int [0..<length (index f)], index_name := n\<rparr>"

text \<open>
  \<open>reset_index()\<close>: the index becomes the first column, under its name, and the frame gets
  the default index of row positions.
\<close>

definition reset_index :: "frame \<Rightarrow> frame" where
  "reset_index f =
     \<lparr>index = map int [0..<length (index f)], index_name = [],
      columns = (index_name f, int_col (index f)) # columns f\<rparr>"

text \<open>
  \<open>left.join(right)\<close>, a left join on the index: every row of the left frame, in order,
  once for each row of the right frame with the same label, and once with NaN when there
  is none. The column names of the two frames are disjoint wherever the code joins.
\<close>

definition positions :: "int list \<Rightarrow> int \<Rightarrow> nat list" where
  "positions keys k = filter (\<lambda>j. keys ! j = k) [0..<length keys]"

definition join_rows :: "int list \<Rightarrow> int list \<Rightarrow> (nat \<times> nat option) list" where
  "join_rows l r =
     concat (map (\<lambda>i. case positions r (l ! i) of
                          [] \<Rightarrow> [(i, None)]
                        | j # js \<Rightarrow> map (\<lambda>j. (i, Some j)) (j # js)) [0..<length l])"

definition take_left :: "(nat \<times> nat option) list \<Rightarrow> 'a list \<Rightarrow> 'a list" where
  "take_left rows c = map (\<lambda>(i, j). c ! i) rows"

definition take_right :: "(nat \<times> nat option) list \<Rightarrow> 'a option list \<Rightarrow> 'a option list" where
  "take_right rows c = map (\<lambda>(i, j). case j of None \<Rightarrow> None | Some k \<Rightarrow> c ! k) rows"

definition join :: "frame \<Rightarrow> frame \<Rightarrow> frame" where
  "join L R =
     (let rows = join_rows (index L) (index R)
      in \<lparr>index = take_left rows (index L), index_name = index_name L,
          columns = map (\<lambda>(m, c). (m, take_left rows c)) (columns L)
                  @ map (\<lambda>(m, c). (m, take_right rows c)) (columns R)\<rparr>)"

section \<open>Source Readers and Precipitation Aggregator\<close>

text \<open>
  A row of the daily file (\<open>DATE_TIME\<close>, \<open>COSMOS_VWC\<close>, \<open>PE\<close>), with the sentinel -9999
  already read as NaN.
\<close>

record daily_row =
  DATE_TIME :: date
  COSMOS_VWC :: cell
  PE :: cell

definition get_cosmos_data :: "int list \<Rightarrow> daily_row list \<Rightarrow> frame" where
  "get_cosmos_data years rows =
     (let kept = filter (\<lambda>r. year (DATE_TIME r) \<in> set years) rows
      in \<lparr>index = map (\<lambda>r. toordinal (DATE_TIME r)) kept, index_name = ''Date'',
          columns = [(''COSMOS_VWC'', map COSMOS_VWC kept)]\<rparr>)"

definition get_PE_data :: "int list \<Rightarrow> daily_row list \<Rightarrow> frame" where
  "get_PE_data years rows =
     (let kept = filter (\<lambda>r. year (DATE_TIME r) \<in> set years) rows
      in \<lparr>index = map (\<lambda>r. toordinal (DATE_TIME r)) kept, index_name = ''Date'',
          columns = [(''PE'', map PE kept)]\<rparr>)"

text \<open>
  A row of the sub-daily file: the date and the time of day (in minutes) of its
  \<open>DATE_TIME\<close>, and \<open>PRECIP\<close>, NaN for the sentinel.
\<close>

record sh_row =
  sh_date :: date
  sh_minute :: nat
  PRECIP :: cell

text \<open>
  Line 145: \<open>groupby(date).PRECIP.agg(['sum', 'count'])\<close>. One group for each date of the
  file, the groups in date order; \<open>sum\<close> adds the values that are not NaN (0 when there
  is none), \<open>count\<close> counts them.
\<close>

definition group_dates :: "sh_row list \<Rightarrow> date list" where
  "group_dates rows = sort_key toordinal (remdups (map sh_date rows))"

definition group_values :: "sh_row list \<Rightarrow> date \<Rightarrow> real list" where
  "group_values rows d = concat (map (\<lambda>r. case PRECIP r of None \<Rightarrow> [] | Some v \<Rightarrow> [v])
                                   (filter (\<lambda>r. sh_date r = d) rows))"

definition agg_sum_count :: "sh_row list \<Rightarrow> (date \<times> real \<times> nat) list" where
  "agg_sum_count rows =
     map (\<lambda>d. (d, sum_list (group_values rows d), length (group_values rows d))) (group_dates rows)"

text \<open>Lines 146 to 148: the columns renamed, the rows of the requested years, indexed by date.\<close>

definition get_PREC_data :: "int list \<Rightarrow> sh_row list \<Rightarrow> frame" where
  "get_PREC_data years rows =
     (let kept = filter (\<lambda>(d, s, c). year d \<in> set years) (agg_sum_count rows)
      in \<lparr>index = map (\<lambda>(d, s, c). toordinal d) kept, index_name = ''Date'',
          columns = [(''PRECIP'', map (\<lambda>(d, s, c). Some s) kept),
                     (''prec_count'', map (\<lambda>(d, s, c). Some (real c)) kept)]\<rparr>)"

text \<open>
  \<open>get_cosmos_api_single(column)\<close> on the decoded response of the API, a frame with one
  row for each time stamp and one column for each parameter: that column alone, indexed
  by the date of the time stamp. The index of \<open>api_data\<close> holds these dates.
\<close>

definition get_cosmos_api_single :: "frame \<Rightarrow> string \<Rightarrow> error + frame" where
  "get_cosmos_api_single api_data column =
     bind (col api_data column) (\<lambda>c.
       Inr \<lparr>index = index api_data, index_name = ''date'', columns = [(column, c)]\<rparr>)"

section \<open>Atmosphere Writer\<close>

text \<open>
  Lines 203 to 210 and, with the other column names, 217 to 224: the chain of
  \<open>assign\<close>, \<open>drop\<close>, \<open>transform\<close>, \<open>rename\<close> and \<open>reset_index\<close> on a joined frame.
\<close>

definition atmo_chain :: "string \<Rightarrow> string \<Rightarrow> frame \<Rightarrow> error + frame" where
  "atmo_chain pe_name prec_name x0 =
     bind (col x0 pe_name) (\<lambda>pe.
     bind (col x0 ''LAI_pred'') (\<lambda>lai.
     let x1 = assign ''rSoil'' (col2 cmul pe (map (\<lambda>v. cexp (cmul (Some (- 0.463)) v)) lai)) x0
     in bind (col x1 pe_name) (\<lambda>pe1.
        bind (col x1 ''rSoil'') (\<lambda>rsoil.
        let x2 = assign ''rRoot'' (col2 csub pe1 rsoil) x1
        in bind (drop_cols [''LAI_pred'', pe_name] x2) (\<lambda>x3.
           let x4 = transform (\<lambda>v. cmul v (Some 0.1)) x3;
               x5 = assign ''hCritA'' (const_col x4 100000) x4;
               x6 = index_by_position ''tAtm'' x5;
               x7 = rename prec_name ''Prec'' x6;
               x8 = reset_index x7
           in bind (col x8 ''tAtm'') (\<lambda>t.
                Inr (assign ''tAtm'' (map (\<lambda>v. cadd v (Some 1)) t) x8)))))))"

text \<open>
  The files on disk. \<open>to_csv\<close> opens the path for writing, which empties the file, and
  then writes the text of the table. A file holds the whole text of a table, or only a
  part of that text when the write was cut short (the text itself, rendered from the
  table, is not modelled). What a write to a path meets is fixed by the environment: the
  path cannot be opened (the file stays as it was), the write breaks after the file was
  opened (a part of the text is left), or the write goes through.
\<close>

datatype content = Whole frame | Partial frame

datatype access = Refused | Breaks | Accepts

record filesystem =
  files :: "string \<Rightarrow> content option"
  on_write :: "string \<Rightarrow> access"

definition to_csv :: "filesystem \<Rightarrow> string \<Rightarrow> frame \<Rightarrow> (error + unit) \<times> filesystem" where
  "to_csv fs path table =
     (case on_write fs path of
        Refused \<Rightarrow> (Inl OSError, fs)
      | Breaks \<Rightarrow> (Inl OSError, fs\<lparr>files := (files fs)(path \<mapsto> Partial table)\<rparr>)
      | Accepts \<Rightarrow> (Inr (), fs\<lparr>files := (files fs)(path \<mapsto> Whole table)\<rparr>))"

definition api_path :: string where
  "api_path = ''data/atmosphere_API.csv''"

definition files_path :: string where
  "files_path = ''data/atmosphere.csv''"

text \<open>The two joined frames of \<open>write_atmo_data\<close> (lines 202 and 216).\<close>

definition driving_api :: "frame \<Rightarrow> frame \<Rightarrow> error + frame" where
  "driving_api api_data MODIS_data =
     bind (get_cosmos_api_single api_data ''pe'') (\<lambda>p.
     bind (get_cosmos_api_single api_data ''precip'') (\<lambda>q.
       Inr (join (join p q) MODIS_data)))"

definition driving_files :: "frame \<Rightarrow> frame \<Rightarrow> frame \<Rightarrow> frame" where
  "driving_files PE_data PREC_data MODIS_data = join (join PE_data PREC_data) MODIS_data"

text \<open>
  \<open>write_atmo_data\<close>: the table from the API is computed and written, then the table from
  the files is computed and written. An exception ends the run with the files as they
  are at that moment.
\<close>

definition write_atmo_data ::
  "frame \<Rightarrow> frame \<Rightarrow> frame \<Rightarrow> frame \<Rightarrow> filesystem \<Rightarrow> (error + frame) \<times> filesystem" where
  "write_atmo_data api_data PE_data PREC_data MODIS_data fs =
     (case bind (driving_api api_data MODIS_data) (atmo_chain ''pe'' ''precip'') of
        Inl e \<Rightarrow> (Inl e, fs)
      | Inr atmo_api \<Rightarrow>
          (case to_csv fs api_path atmo_api of
             (Inl e, fs1) \<Rightarrow> (Inl e, fs1)
           | (Inr done1, fs1) \<Rightarrow>
               (case atmo_chain ''PE'' ''PRECIP'' (driving_files PE_data PREC_data MODIS_data) of
                  Inl e \<Rightarrow> (Inl e, fs1)
                | Inr atmo \<Rightarrow>
                    (case to_csv fs1 files_path atmo of
                       (Inl e, fs2) \<Rightarrow> (Inl e, fs2)
                     | (Inr done2, fs2) \<Rightarrow> (Inr atmo, fs2)))))"

text \<open>
  \<open>pd.concat(frames, axis=1)\<close> (lines 35 and 38) puts the frames side by side on the union
  of their indexes. It raises when a frame whose index has a label twice must be
  reindexed, that is when the indexes are not all the same. The frame it builds,
  \<open>driving_data\<close>, is read by no later step, so only the exception is modelled.
\<close>

definition concat_axis1 :: "frame list \<Rightarrow> error + unit" where
  "concat_axis1 fs =
     (if (\<exists>f\<in>set fs. \<not> distinct (index f)) \<and> \<not> (\<forall>f\<in>set fs. index f = index (hd fs))
      then Inl InvalidIndexError else Inr ())"

text \<open>
  The inputs of a run: what reading each of the three files gives, its rows or the
  exception raised (for one, a file that is not there), and what \<open>get_cosmos_api_data\<close>
  gives, the decoded table of the response or the exception raised.
\<close>

record inputs =
  daily_file :: "error + daily_row list"
  sh_file :: "error + sh_row list"
  modis_file :: "error + sample list"
  api_response :: "error + frame"

text \<open>
  The constructor up to the writer (lines 30 to 38): the readers in order, the
  reconstruction (run twice, for \<open>MODIS_data\<close> and for \<open>LAI_data\<close>) and the two
  \<open>driving_data\<close> frames. It gives the four frames the writer reads.
\<close>

definition prepare ::
  "int \<Rightarrow> int list \<Rightarrow> string \<Rightarrow> inputs \<Rightarrow> error + (frame \<times> frame \<times> frame \<times> frame)" where
  "prepare this_year years site inp =
     bind (daily_file inp) (\<lambda>daily.
     let cosmos_data = get_cosmos_data years daily;
         PE_data = get_PE_data years daily
     in bind (sh_file inp) (\<lambda>sh.
        let PREC_data = get_PREC_data years sh
        in bind (modis_file inp) (\<lambda>rows.
           bind (get_MODIS_data this_year years site rows) (\<lambda>MODIS_data.
           bind (get_MODIS_data this_year years site rows) (\<lambda>LAI_data.
           bind (concat_axis1 [PE_data, PREC_data, LAI_data]) (\<lambda>driving_data.
           bind (api_response inp) (\<lambda>api_data.
           bind (get_cosmos_api_single api_data ''pe'') (\<lambda>p.
           bind (get_cosmos_api_single api_data ''precip'') (\<lambda>q.
           bind (concat_axis1 [p, q, LAI_data]) (\<lambda>driving_data2.
             Inr (api_data, PE_data, PREC_data, MODIS_data)))))))))))"

text \<open>The constructor (lines 24 to 39), a whole run: \<open>prepare\<close>, then the writer.\<close>

definition run ::
  "int \<Rightarrow> int list \<Rightarrow> string \<Rightarrow> inputs \<Rightarrow> filesystem \<Rightarrow> (error + frame) \<times> filesystem" where
  "run this_year years site inp fs =
     (case prepare this_year years site inp of
        Inl e \<Rightarrow> (Inl e, fs)
      | Inr (api_data, PE_data, PREC_data, MODIS_data) \<Rightarrow>
          write_atmo_data api_data PE_data PREC_data MODIS_data fs)"

section \<open>The smoothing as the specification words it\<close>

text \<open>
  The specification's step 1, for comparison with \<open>CALC\<close>: the first value is the first
  sample's LAI, and each later value starts from the smoothed value before it:
  \<open>smoothed[i] = smoothed[i-1] + (LAI[i] - smoothed[i-1]) / (confidence[i] + 1)\<close>.
\<close>

fun spec_smooth_from :: "real \<Rightarrow> sample list \<Rightarrow> real list" where
  "spec_smooth_from prev [] = []"
| "spec_smooth_from prev (s # ss) =
     (let v = prev + (LAI s - prev) / real_of_int (Confidence s + 1)
      in v # spec_smooth_from v ss)"

definition spec_smoothed :: "sample list \<Rightarrow> real list" where
  "spec_smoothed M = (case M of [] \<Rightarrow> [] | s # ss \<Rightarrow> LAI s # spec_smooth_from (LAI s) ss)"

section \<open>Properties of the Calendar Builder\<close>

lemma fold_min_Min: "fold min xs (x::int) = Min (set (x # xs))"
  by (rule Min.set_eq_fold [symmetric])

lemma fold_max_Max: "fold max xs (x::int) = Max (set (x # xs))"
  by (rule Max.set_eq_fold [symmetric])

lemma div_hundred_step: "a \<le> b \<Longrightarrow> (b::int) div 100 - a div 100 \<le> b - a"
proof -
  assume ab: "a \<le> b"
  have da: "a = a div 100 * 100 + a mod 100" by simp
  have db: "b = b div 100 * 100 + b mod 100" by simp
  have bounds: "0 \<le> a mod 100" "a mod 100 < 100" "0 \<le> b mod 100" "b mod 100 < 100"
    by simp_all
  show ?thesis using ab da db bounds by linarith
qed

lemma year_terms_mono:
  "p \<le> p' \<Longrightarrow> g \<le> g' \<Longrightarrow> h' - h \<le> b - a \<Longrightarrow> a \<le> b \<Longrightarrow>
     (a - 1) * 365 + p - h + g \<le> (b - 1) * 365 + p' - h' + (g'::int)"
  by (simp add: algebra_simps)

lemma days_before_year_mono:
  assumes "a \<le> b"
  shows "days_before_year a \<le> days_before_year b"
proof -
  have q: "(a - 1) div 4 \<le> (b - 1) div 4" "(a - 1) div 400 \<le> (b - 1) div 400"
    using assms by (simp_all add: zdiv_mono1)
  have c: "(b - 1) div 100 - (a - 1) div 100 \<le> (b - 1) - (a - 1)"
    using assms by (intro div_hundred_step) simp
  define p where "p = (a - 1) div 4"
  define p' where "p' = (b - 1) div 4"
  define h where "h = (a - 1) div 100"
  define h' where "h' = (b - 1) div 100"
  define g where "g = (a - 1) div 400"
  define g' where "g' = (b - 1) div 400"
  have "p \<le> p'" "g \<le> g'" "h' - h \<le> b - a"
    using q c by (simp_all add: p_def p'_def g_def g'_def h_def h'_def)
  then have "(a - 1) * 365 + p - h + g \<le> (b - 1) * 365 + p' - h' + g'"
    using assms by (intro year_terms_mono)
  then show ?thesis
    by (simp only: days_before_year_def p_def p'_def g_def g'_def h_def h'_def)
qed

lemma new_year_ordinal: "toordinal (mkdate y 1 1) = days_before_year y + 1"
  by (simp add: toordinal_def mkdate_def days_before_month_def)

lemma year_end_ordinal:
  "toordinal (mkdate y 12 31) = days_before_year y + (if is_leap y then 366 else 365)"
  by (simp add: toordinal_def mkdate_def days_before_month_def)

lemma year_span: "a \<le> b \<Longrightarrow> toordinal (mkdate a 1 1) \<le> toordinal (mkdate b 12 31)"
  using days_before_year_mono [of a b] unfolding new_year_ordinal year_end_ordinal by simp

lemma timestamp_bounds:
  "mkdate 1677 9 22 \<le> days_before_year 1678 + 1"
  "days_before_year 2261 + 366 \<le> mkdate 2262 4 11"
  by (simp_all add: mkdate_def days_before_year_def days_before_month_def is_leap_def)

lemma Timestamp_new_year:
  assumes "1678 \<le> y" and "y \<le> 2261"
  shows "Timestamp (mkdate y 1 1) = Inr (toordinal (mkdate y 1 1))"
proof -
  have "days_before_year 1678 \<le> days_before_year y" "days_before_year y \<le> days_before_year 2261"
    using assms by (simp_all add: days_before_year_mono)
  then have "mkdate 1677 9 22 \<le> toordinal (mkdate y 1 1)"
    and "toordinal (mkdate y 1 1) \<le> mkdate 2262 4 11"
    using timestamp_bounds unfolding new_year_ordinal by linarith+
  then show ?thesis by (simp add: Timestamp_def toordinal_def)
qed

lemma Timestamp_year_end:
  assumes "1678 \<le> y" and "y \<le> 2261"
  shows "Timestamp (mkdate y 12 31) = Inr (toordinal (mkdate y 12 31))"
proof -
  have "days_before_year 1678 \<le> days_before_year y" "days_before_year y \<le> days_before_year 2261"
    using assms by (simp_all add: days_before_year_mono)
  then have "mkdate 1677 9 22 \<le> toordinal (mkdate y 12 31)"
    and "toordinal (mkdate y 12 31) \<le> mkdate 2262 4 11"
    using timestamp_bounds unfolding year_end_ordinal by (simp_all split: if_splits)
  then show ?thesis by (simp add: Timestamp_def toordinal_def)
qed

lemma parse_year_plain: "100 \<le> y \<Longrightarrow> y \<le> 9999 \<Longrightarrow> parse_year this_year y = Inr y"
  by (simp add: parse_year_def)

lemma parse_year_two_digits: "parse_year 2026 99 = Inr 1999" "parse_year 2026 18 = Inr 2018"
  by (simp_all add: parse_year_def)

lemma calendar_in_range:
  assumes "years \<noteq> []" and "\<forall>y\<in>set years. 1678 \<le> y \<and> y \<le> 2261"
  shows "calendar this_year years
           = Inr [toordinal (mkdate (Min (set years)) 1 1) .. toordinal (mkdate (Max (set years)) 12 31)]"
proof -
  from assms(1) obtain y ys where years: "years = y # ys" by (cases years) auto
  define lo where "lo = Min (set years)"
  define hi where "hi = Max (set years)"
  have "lo \<in> set years" "hi \<in> set years"
    unfolding lo_def hi_def using assms(1) by (simp_all add: Min_in Max_in)
  with assms(2) have lo: "1678 \<le> lo" "lo \<le> 2261" and hi: "1678 \<le> hi" "hi \<le> 2261"
    by auto
  have m: "py_min years = Inr lo" "py_max years = Inr hi"
    unfolding lo_def hi_def years by (simp_all only: py_min.simps py_max.simps fold_min_Min fold_max_Max)
  have p: "parse_year this_year lo = Inr lo" "parse_year this_year hi = Inr hi"
    using lo hi by (simp_all add: parse_year_plain)
  show ?thesis
    unfolding lo_def [symmetric] hi_def [symmetric]
    by (simp add: calendar_def bind_def m p Timestamp_new_year [OF lo] Timestamp_year_end [OF hi]
          date_range_def)
qed

lemma upto_steps:
  fixes a b :: int
  assumes "a \<le> b"
  shows "[a..b] \<noteq> []" and "hd [a..b] = a" and "last [a..b] = b"
    and "\<forall>k. Suc k < length [a..b] \<longrightarrow> [a..b] ! Suc k = [a..b] ! k + 1"
    and "sorted_wrt (<) [a..b]"
proof -
  show "[a..b] \<noteq> []" using assms by simp
  show "hd [a..b] = a" using assms by (simp add: upto_rec1)
  show "last [a..b] = b" using assms by (simp add: upto_rec2)
  show "\<forall>k. Suc k < length [a..b] \<longrightarrow> [a..b] ! Suc k = [a..b] ! k + 1" by simp
  show "sorted_wrt (<) [a..b]" by (simp add: strict_sorted_iff)
qed

text \<open>
  C7, as amended. For a non-empty list of requested years, all from 1678 to 2261 (the
  years whose first and last day a timestamp holds), the calendar is the run of
  consecutive days from 1 January of the least year to 31 December of the greatest year,
  both included, whatever the clock: it starts and ends there, each entry is the day
  after the one before, and it is strictly increasing. For the years 2018 and 2019 it
  has 730 entries, from 2018-01-01 to 2019-12-31.
\<close>

theorem calendar_spans_years:
  "(years \<noteq> [] \<and> (\<forall>y\<in>set years. 1678 \<le> y \<and> y \<le> 2261) \<longrightarrow>
     (\<exists>cal. calendar this_year years = Inr cal
        \<and> set cal = {toordinal (mkdate (Min (set years)) 1 1) .. toordinal (mkdate (Max (set years)) 12 31)}
        \<and> cal \<noteq> []
        \<and> hd cal = toordinal (mkdate (Min (set years)) 1 1)
        \<and> last cal = toordinal (mkdate (Max (set years)) 12 31)
        \<and> (\<forall>k. Suc k < length cal \<longrightarrow> cal ! Suc k = cal ! k + 1)
        \<and> sorted_wrt (<) cal))
   \<and> (\<exists>cal. calendar this_year [2018, 2019] = Inr cal \<and> length cal = 730
        \<and> hd cal = toordinal (mkdate 2018 1 1) \<and> last cal = toordinal (mkdate 2019 12 31))"
proof (intro conjI impI)
  assume h: "years \<noteq> [] \<and> (\<forall>y\<in>set years. 1678 \<le> y \<and> y \<le> 2261)"
  then have ne: "years \<noteq> []" and r: "\<forall>y\<in>set years. 1678 \<le> y \<and> y \<le> 2261" by simp_all
  define lo where "lo = Min (set years)"
  define hi where "hi = Max (set years)"
  have "lo \<le> hi" unfolding lo_def hi_def using ne by simp
  then have span: "toordinal (mkdate lo 1 1) \<le> toordinal (mkdate hi 12 31)"
    by (rule year_span)
  have cal: "calendar this_year years = Inr [toordinal (mkdate lo 1 1) .. toordinal (mkdate hi 12 31)]"
    unfolding lo_def hi_def using ne r by (rule calendar_in_range)
  show "\<exists>cal. calendar this_year years = Inr cal
        \<and> set cal = {toordinal (mkdate (Min (set years)) 1 1) .. toordinal (mkdate (Max (set years)) 12 31)}
        \<and> cal \<noteq> []
        \<and> hd cal = toordinal (mkdate (Min (set years)) 1 1)
        \<and> last cal = toordinal (mkdate (Max (set years)) 12 31)
        \<and> (\<forall>k. Suc k < length cal \<longrightarrow> cal ! Suc k = cal ! k + 1)
        \<and> sorted_wrt (<) cal"
    using upto_steps [OF span] cal unfolding lo_def hi_def by (intro exI conjI) auto
next
  have a: "toordinal (mkdate 2018 1 1) = 736695"
    by (simp add: new_year_ordinal days_before_year_def)
  have b: "toordinal (mkdate 2019 12 31) = 737424"
    by (simp add: year_end_ordinal days_before_year_def is_leap_def)
  have "calendar this_year [2018, 2019]
          = Inr [toordinal (mkdate (Min (set [2018, 2019])) 1 1) .. toordinal (mkdate (Max (set [2018, 2019])) 12 31)]"
    by (rule calendar_in_range) simp_all
  then have c: "calendar this_year [2018, 2019] = Inr [736695 .. 737424]"
    by (simp add: a b del: upto_rec_numeral)
  have le: "(736695::int) \<le> 737424" by simp
  have l: "length [736695 .. 737424::int] = 730"
    by (simp del: upto_rec_numeral)
  show "\<exists>cal. calendar this_year [2018, 2019] = Inr cal \<and> length cal = 730
        \<and> hd cal = toordinal (mkdate 2018 1 1) \<and> last cal = toordinal (mkdate 2019 12 31)"
    unfolding a b using c l upto_steps(2,3) [OF le] by blast
qed

text \<open>
  C7 as stated fails: for the years 1600 and 2018 the start of the calendar,
  1 January 1600, is a date no timestamp holds, and the call raises.
\<close>

theorem calendar_out_of_bounds_counterexample:
  "calendar 2026 [1600, 2018] = Inl DateError"
  by (simp add: calendar_def bind_def parse_year_def Timestamp_def mkdate_def
        days_before_year_def days_before_month_def is_leap_def)

theorem calendar_spans_years_witness:
  "([2018, 2020::int] \<noteq> [] \<and> (1678::int) \<le> 2018 \<and> (2018::int) \<le> 2261
      \<and> (1678::int) \<le> 2020 \<and> (2020::int) \<le> 2261)
   \<and> (\<exists>cal. calendar 2026 [2018, 2020] = Inr cal
     \<and> hd cal = toordinal (mkdate 2018 1 1) \<and> last cal = toordinal (mkdate 2020 12 31)
     \<and> sorted_wrt (<) cal)"
proof -
  have ne: "[2018, 2020::int] \<noteq> [] \<and> (\<forall>y\<in>set [2018, 2020::int]. 1678 \<le> y \<and> y \<le> 2261)" by simp
  have lo: "Min (set [2018, 2020::int]) = 2018" and hi: "Max (set [2018, 2020::int]) = 2020"
    by simp_all
  from calendar_spans_years [of "[2018, 2020]" 2026, THEN conjunct1, THEN mp, OF ne]
  obtain cal where "calendar 2026 [2018, 2020] = Inr cal"
    and "hd cal = toordinal (mkdate (Min (set [2018, 2020])) 1 1)"
    and "last cal = toordinal (mkdate (Max (set [2018, 2020])) 12 31)"
    and "sorted_wrt (<) cal"
    by blast
  then have "\<exists>cal. calendar 2026 [2018, 2020] = Inr cal
     \<and> hd cal = toordinal (mkdate 2018 1 1) \<and> last cal = toordinal (mkdate 2020 12 31)
     \<and> sorted_wrt (<) cal"
    by (simp only: lo hi) blast
  then show ?thesis by simp
qed

section \<open>Properties of the smoothing step\<close>

lemma length_shift1: "length (shift1 xs) = length xs"
  by (cases xs) (simp_all add: shift1_def)

lemma nth_shift1: "0 < i \<Longrightarrow> i < length xs \<Longrightarrow> shift1 xs ! i = xs ! (i - 1)"
proof -
  assume i: "0 < i" "i < length xs"
  then have "shift1 xs = None # butlast xs" by (cases xs) (simp_all add: shift1_def)
  moreover have "i - 1 < length (butlast xs)" using i by simp
  ultimately show ?thesis using i by (simp add: nth_Cons' nth_butlast del: butlast.simps)
qed

lemma length_col2: "length (col2 f xs ys) = min (length xs) (length ys)"
  by (simp add: col2_def)

lemma nth_col2: "i < length xs \<Longrightarrow> i < length ys \<Longrightarrow> col2 f xs ys ! i = f (xs ! i) (ys ! i)"
  by (simp add: col2_def)

lemma length_CALC_raw: "length (CALC_raw M) = length M"
  by (simp add: CALC_raw_def Let_def length_col2 length_shift1)

lemma nth_CALC_raw:
  assumes "0 < i" and "i < length M" and "Confidence (M ! i) \<noteq> - 1"
  shows "CALC_raw M ! i =
           Some (LAI (M ! (i - 1)) + (LAI (M ! i) - LAI (M ! (i - 1))) / real_of_int (Confidence (M ! i) + 1))"
proof -
  have nz: "real_of_int (Confidence (M ! i) + 1) \<noteq> 0"
    using assms(3) by linarith
  from assms have prev: "shift1 (map (\<lambda>s. Some (LAI s)) M) ! i = Some (LAI (M ! (i - 1)))"
    by (simp add: nth_shift1)
  show ?thesis
    using assms(2) prev nz
    by (simp add: CALC_raw_def Let_def nth_col2 length_col2 length_shift1 cadd_def csub_def cdiv_def)
qed

lemma CALC_Cons:
  "CALC (s # ss) = Inr (Some (LAI s) # tl (CALC_raw (s # ss)))"
proof -
  have "length (CALC_raw (s # ss)) = Suc (length ss)" by (simp add: length_CALC_raw)
  then obtain c cs where "CALC_raw (s # ss) = c # cs" by (cases "CALC_raw (s # ss)") auto
  then show ?thesis by (simp add: CALC_def bind_def get_first_def set_first_def)
qed

text \<open>
  C1, as amended. For a non-empty list of samples \<open>CALC\<close> succeeds; its first value is
  the first sample's LAI, and for \<open>i \<ge> 1\<close> with a non-negative confidence its value is
  computed from the raw LAI of the sample before, not from the value \<open>CALC\<close> gave it:
  \<open>CALC[i] = LAI[i-1] + (LAI[i] - LAI[i-1]) / (confidence[i] + 1)\<close>.
\<close>

theorem CALC_from_previous_raw_sample:
  "M \<noteq> [] \<Longrightarrow>
     \<exists>calc. CALC M = Inr calc \<and> length calc = length M \<and> calc ! 0 = Some (LAI (M ! 0)) \<and>
       (\<forall>i. 1 \<le> i \<and> i < length M \<and> 0 \<le> Confidence (M ! i) \<longrightarrow>
          calc ! i = Some (LAI (M ! (i - 1))
                       + (LAI (M ! i) - LAI (M ! (i - 1))) / real_of_int (Confidence (M ! i) + 1)))"
proof -
  assume "M \<noteq> []"
  then obtain s ss where M: "M = s # ss" by (cases M) auto
  let ?calc = "Some (LAI s) # tl (CALC_raw M)"
  have len: "length ?calc = length M"
    using length_CALC_raw [of M] by (simp add: M)
  have later: "?calc ! i = CALC_raw M ! i" if "1 \<le> i" "i < length M" for i
    using that length_CALC_raw [of M] by (cases i) (simp_all add: nth_tl)
  have "CALC M = Inr ?calc" unfolding M by (rule CALC_Cons)
  moreover have "?calc ! 0 = Some (LAI (M ! 0))" by (simp add: M)
  moreover have "\<forall>i. 1 \<le> i \<and> i < length M \<and> 0 \<le> Confidence (M ! i) \<longrightarrow>
          ?calc ! i = Some (LAI (M ! (i - 1))
                       + (LAI (M ! i) - LAI (M ! (i - 1))) / real_of_int (Confidence (M ! i) + 1))"
    using later nth_CALC_raw [of _ M] by auto
  ultimately show ?thesis using len by blast
qed

text \<open>
  C1 as stated fails: on three samples with LAI 0, 2, 2 and confidence 0, 1, 1 the code
  gives 0, 1, 2, and the recursion on the smoothed value gives 0, 1, 3/2.
\<close>

theorem CALC_recursive_counterexample:
  "CALC [\<lparr>Date = mkdate 2018 1 1, SITE_ID = ''CHIMN'', LAI = 0, Confidence = 0\<rparr>,
        \<lparr>Date = mkdate 2018 1 5, SITE_ID = ''CHIMN'', LAI = 2, Confidence = 1\<rparr>,
        \<lparr>Date = mkdate 2018 1 9, SITE_ID = ''CHIMN'', LAI = 2, Confidence = 1\<rparr>]
     = Inr [Some 0, Some 1, Some 2]
   \<and> spec_smoothed [\<lparr>Date = mkdate 2018 1 1, SITE_ID = ''CHIMN'', LAI = 0, Confidence = 0\<rparr>,
        \<lparr>Date = mkdate 2018 1 5, SITE_ID = ''CHIMN'', LAI = 2, Confidence = 1\<rparr>,
        \<lparr>Date = mkdate 2018 1 9, SITE_ID = ''CHIMN'', LAI = 2, Confidence = 1\<rparr>]
     = [0, 1, 3 / 2]"
  by (simp add: CALC_def CALC_raw_def bind_def get_first_def set_first_def shift1_def col2_def
        cadd_def csub_def cdiv_def spec_smoothed_def Let_def)

theorem CALC_from_previous_raw_sample_witness:
  "[\<lparr>Date = mkdate 2018 1 1, SITE_ID = ''CHIMN'', LAI = 0, Confidence = 0\<rparr>,
    \<lparr>Date = mkdate 2018 1 5, SITE_ID = ''CHIMN'', LAI = 2, Confidence = 1\<rparr>,
    \<lparr>Date = mkdate 2018 1 9, SITE_ID = ''CHIMN'', LAI = 2, Confidence = 1\<rparr>] \<noteq> []
   \<and> (\<exists>calc. CALC [\<lparr>Date = mkdate 2018 1 1, SITE_ID = ''CHIMN'', LAI = 0, Confidence = 0\<rparr>,
                    \<lparr>Date = mkdate 2018 1 5, SITE_ID = ''CHIMN'', LAI = 2, Confidence = 1\<rparr>,
                    \<lparr>Date = mkdate 2018 1 9, SITE_ID = ''CHIMN'', LAI = 2, Confidence = 1\<rparr>] = Inr calc
        \<and> calc ! 0 = Some 0 \<and> calc ! 2 = Some 2)"
proof -
  let ?M = "[\<lparr>Date = mkdate 2018 1 1, SITE_ID = ''CHIMN'', LAI = 0, Confidence = 0\<rparr>,
    \<lparr>Date = mkdate 2018 1 5, SITE_ID = ''CHIMN'', LAI = 2, Confidence = 1\<rparr>,
    \<lparr>Date = mkdate 2018 1 9, SITE_ID = ''CHIMN'', LAI = 2, Confidence = 1\<rparr>]"
  have ne: "?M \<noteq> []" by simp
  from CALC_from_previous_raw_sample [OF ne]
  obtain calc where c: "CALC ?M = Inr calc" and z: "calc ! 0 = Some (LAI (?M ! 0))"
    and step: "\<forall>i. 1 \<le> i \<and> i < length ?M \<and> 0 \<le> Confidence (?M ! i) \<longrightarrow>
          calc ! i = Some (LAI (?M ! (i - 1))
                       + (LAI (?M ! i) - LAI (?M ! (i - 1))) / real_of_int (Confidence (?M ! i) + 1))"
    by blast
  from step [rule_format, of 2] have "calc ! 2 = Some 2" by simp
  with c z ne show ?thesis by simp
qed

section \<open>Properties of the LAI Reconstructor at the ends of the calendar\<close>

text \<open>A year of four digits is read without the clock.\<close>

lemma calendar_2018: "calendar this_year [2018] = calendar 0 [2018]"
  by (simp add: calendar_def bind_def parse_year_def)

lemma padded_2018: "padded this_year [2018] site rows = padded 0 [2018] site rows"
  by (simp only: padded_def calendar_2018 [of this_year])

lemma get_MODIS_data_2018:
  "get_MODIS_data this_year [2018] site rows = get_MODIS_data 0 [2018] site rows"
  by (simp only: get_MODIS_data_def padded_2018 [of this_year])

text \<open>
  C2 on a failing input. Year 2018, samples on 3 January (LAI 1) and 31 December (LAI 2):
  the calendar starts two days before the first sample. The specification wants the value
  1 on 1 January. The code raises at the cast to integer, since \<open>Date0\<close> is NaT on the
  first two rows; and the value line 182 would read, \<open>LAI[0]\<close> of the reindexed frame, is
  NaN there, as is \<open>CALC\<close>.
\<close>

theorem first_row_before_first_sample:
  "get_MODIS_data this_year [2018] ''CHIMN''
     [\<lparr>Date = mkdate 2018 1 3, SITE_ID = ''CHIMN'', LAI = 1, Confidence = 0\<rparr>,
      \<lparr>Date = mkdate 2018 12 31, SITE_ID = ''CHIMN'', LAI = 2, Confidence = 1\<rparr>]
     = Inl IntCastingNaN
   \<and> bind (padded this_year [2018] ''CHIMN''
            [\<lparr>Date = mkdate 2018 1 3, SITE_ID = ''CHIMN'', LAI = 1, Confidence = 0\<rparr>,
             \<lparr>Date = mkdate 2018 12 31, SITE_ID = ''CHIMN'', LAI = 2, Confidence = 1\<rparr>])
        (\<lambda>m. Inr (take 3 (LAI_col m), take 3 (CALC_col m), take 3 (Date0_col m)))
     = Inr ([None, None, Some 1], [None, None, Some 1], [None, None, Some 736697])"
  unfolding get_MODIS_data_2018 [of this_year] padded_2018 [of this_year]
  by code_simp

text \<open>
  C3 on a failing input. Year 2018, samples on 1 January (LAI 1) and 27 December (LAI 2,
  smoothed 3/2): the calendar runs four days past the last sample. The specification
  wants the value 3/2 there. The code raises at the cast to integer, since \<open>Date2\<close> is
  NaT after the last sample; \<open>CALC\<close> is carried forward to 31 December, but \<open>CALC2\<close>
  is NaN there, so the triangle rule has no value in any case.
\<close>

theorem rows_after_last_sample:
  "get_MODIS_data this_year [2018] ''CHIMN''
     [\<lparr>Date = mkdate 2018 1 1, SITE_ID = ''CHIMN'', LAI = 1, Confidence = 0\<rparr>,
      \<lparr>Date = mkdate 2018 12 27, SITE_ID = ''CHIMN'', LAI = 2, Confidence = 1\<rparr>]
     = Inl IntCastingNaN
   \<and> bind (padded this_year [2018] ''CHIMN''
            [\<lparr>Date = mkdate 2018 1 1, SITE_ID = ''CHIMN'', LAI = 1, Confidence = 0\<rparr>,
             \<lparr>Date = mkdate 2018 12 27, SITE_ID = ''CHIMN'', LAI = 2, Confidence = 1\<rparr>])
        (\<lambda>m. Inr (last (CALC_col m), last (CALC2_col m), last (Date2_col m)))
     = Inr (Some (3 / 2), None, None)"
  unfolding get_MODIS_data_2018 [of this_year] padded_2018 [of this_year]
  by code_simp

section \<open>Properties of the Atmosphere Writer\<close>

lemma chain_api:
  "atmo_chain ''pe'' ''precip''
     \<lparr>index = ix, index_name = nm,
      columns = [(''pe'', pe), (''precip'', pr), (''LAI_pred'', lai)]\<rparr>
   = Inr \<lparr>index = map int [0..<length ix], index_name = [],
          columns = [(''tAtm'', map (\<lambda>v. cadd v (Some 1)) (int_col (map int [0..<length ix]))),
                     (''Prec'', map (\<lambda>v. cmul v (Some 0.1)) pr),
                     (''rSoil'', map (\<lambda>v. cmul v (Some 0.1))
                        (col2 cmul pe (map (\<lambda>v. cexp (cmul (Some (- 0.463)) v)) lai))),
                     (''rRoot'', map (\<lambda>v. cmul v (Some 0.1))
                        (col2 csub pe (col2 cmul pe (map (\<lambda>v. cexp (cmul (Some (- 0.463)) v)) lai)))),
                     (''hCritA'', replicate (length ix) (Some 100000))]\<rparr>"
  by (simp add: atmo_chain_def col_def bind_def assign_def drop_cols_def transform_def
        const_col_def index_by_position_def rename_def reset_index_def Let_def)

lemma chain_files:
  "atmo_chain ''PE'' ''PRECIP''
     \<lparr>index = ix, index_name = nm,
      columns = [(''PE'', pe), (''PRECIP'', pr), (''prec_count'', cnt), (''LAI_pred'', lai)]\<rparr>
   = Inr \<lparr>index = map int [0..<length ix], index_name = [],
          columns = [(''tAtm'', map (\<lambda>v. cadd v (Some 1)) (int_col (map int [0..<length ix]))),
                     (''Prec'', map (\<lambda>v. cmul v (Some 0.1)) pr),
                     (''prec_count'', map (\<lambda>v. cmul v (Some 0.1)) cnt),
                     (''rSoil'', map (\<lambda>v. cmul v (Some 0.1))
                        (col2 cmul pe (map (\<lambda>v. cexp (cmul (Some (- 0.463)) v)) lai))),
                     (''rRoot'', map (\<lambda>v. cmul v (Some 0.1))
                        (col2 csub pe (col2 cmul pe (map (\<lambda>v. cexp (cmul (Some (- 0.463)) v)) lai)))),
                     (''hCritA'', replicate (length ix) (Some 100000))]\<rparr>"
  by (simp add: atmo_chain_def col_def bind_def assign_def drop_cols_def transform_def
        const_col_def index_by_position_def rename_def reset_index_def Let_def)







section \<open>Properties of the Precipitation Aggregator\<close>

lemma year_of_examples:
  "year (mkdate 2017 6 1) = 2017" "year (mkdate 2018 6 1) = 2018"
  "year (mkdate 2018 1 1) = 2018" "year (mkdate 2018 1 2) = 2018" "year (mkdate 2018 1 3) = 2018"
  by code_simp+

lemma group_dates_set: "set (group_dates rows) = sh_date ` set rows"
  by (simp add: group_dates_def)

lemma group_dates_distinct: "distinct (group_dates rows)"
  by (simp add: group_dates_def)

lemma group_dates_sorted: "sorted (map toordinal (group_dates rows))"
  by (simp add: group_dates_def)

lemma group_values_sum:
  "sum_list (group_values rows d)
     = (\<Sum>r\<leftarrow>filter (\<lambda>r. sh_date r = d \<and> PRECIP r \<noteq> None) rows. the (PRECIP r))"
  by (induction rows) (auto simp: group_values_def)

lemma group_values_count:
  "length (group_values rows d)
     = length (filter (\<lambda>r. sh_date r = d \<and> PRECIP r \<noteq> None) rows)"
  by (induction rows) (auto simp: group_values_def)

lemma kept_groups:
  "filter (\<lambda>(d, s, c). year d \<in> set years) (agg_sum_count rows)
     = map (\<lambda>d. (d, sum_list (group_values rows d), length (group_values rows d)))
         (filter (\<lambda>d. year d \<in> set years) (group_dates rows))"
  by (simp add: agg_sum_count_def filter_map comp_def)

lemma distinct_singleton_set:
  assumes "distinct ds" and "set ds = {x}"
  shows "ds = [x]"
proof (cases ds)
  case Nil
  with assms(2) show ?thesis by simp
next
  case (Cons a r)
  with assms(2) have a: "a = x" by auto
  have "r = []"
  proof (cases r)
    case Nil
    then show ?thesis .
  next
    case (Cons b q)
    with \<open>ds = a # r\<close> assms(2) have "b = x" by auto
    with Cons \<open>ds = a # r\<close> a assms(1) show ?thesis by simp
  qed
  then show ?thesis using Cons a by simp
qed

text \<open>
  C6, as amended. The aggregated precipitation has exactly one row for each date that
  occurs in the input and whose year is requested, in date order, and no other row; its
  \<open>PRECIP\<close> is the sum of the values of that date that are not NaN and its
  \<open>prec_count\<close> is their number.
\<close>

theorem daily_precipitation_rows:
  "\<exists>ds. get_PREC_data years rows =
          \<lparr>index = map toordinal ds, index_name = ''Date'',
           columns =
             [(''PRECIP'', map (\<lambda>d. Some (\<Sum>r\<leftarrow>filter (\<lambda>r. sh_date r = d \<and> PRECIP r \<noteq> None) rows.
                                             the (PRECIP r))) ds),
              (''prec_count'', map (\<lambda>d. Some (real (length
                                     (filter (\<lambda>r. sh_date r = d \<and> PRECIP r \<noteq> None) rows)))) ds)]\<rparr>
        \<and> distinct ds
        \<and> sorted (map toordinal ds)
        \<and> set ds = {d. d \<in> sh_date ` set rows \<and> year d \<in> set years}"
proof -
  let ?ds = "filter (\<lambda>d. year d \<in> set years) (group_dates rows)"
  have "get_PREC_data years rows =
          \<lparr>index = map toordinal ?ds, index_name = ''Date'',
           columns =
             [(''PRECIP'', map (\<lambda>d. Some (\<Sum>r\<leftarrow>filter (\<lambda>r. sh_date r = d \<and> PRECIP r \<noteq> None) rows.
                                             the (PRECIP r))) ?ds),
              (''prec_count'', map (\<lambda>d. Some (real (length
                                     (filter (\<lambda>r. sh_date r = d \<and> PRECIP r \<noteq> None) rows)))) ?ds)]\<rparr>"
    by (simp add: get_PREC_data_def kept_groups Let_def comp_def group_values_sum group_values_count)
  moreover have "distinct ?ds" using group_dates_distinct by simp
  moreover have "sorted (map toordinal ?ds)"
    using group_dates_sorted [of rows] by (simp add: sorted_map sorted_wrt_filter)
  moreover have "set ?ds = {d. d \<in> sh_date ` set rows \<and> year d \<in> set years}"
    by (auto simp: group_dates_set)
  ultimately show ?thesis by blast
qed

text \<open>
  C6 as stated fails: a date of the input in a year that is not requested gets no row.
\<close>

theorem daily_precipitation_unrequested_year_counterexample:
  "get_PREC_data [2018]
     [\<lparr>sh_date = mkdate 2017 6 1, sh_minute = 0, PRECIP = Some 1\<rparr>]
   = \<lparr>index = [], index_name = ''Date'', columns = [(''PRECIP'', []), (''prec_count'', [])]\<rparr>"
  by (simp add: get_PREC_data_def agg_sum_count_def group_dates_def year_of_examples)

theorem daily_precipitation_rows_witness:
  "get_PREC_data [2018]
     [\<lparr>sh_date = mkdate 2018 6 1, sh_minute = 0, PRECIP = Some 2\<rparr>,
      \<lparr>sh_date = mkdate 2018 6 1, sh_minute = 720, PRECIP = None\<rparr>,
      \<lparr>sh_date = mkdate 2018 6 1, sh_minute = 1080, PRECIP = Some 1\<rparr>]
   = \<lparr>index = [toordinal (mkdate 2018 6 1)], index_name = ''Date'',
      columns = [(''PRECIP'', [Some 3]), (''prec_count'', [Some 2])]\<rparr>"
proof -
  let ?rows = "[\<lparr>sh_date = mkdate 2018 6 1, sh_minute = 0, PRECIP = Some 2\<rparr>,
      \<lparr>sh_date = mkdate 2018 6 1, sh_minute = 720, PRECIP = None\<rparr>,
      \<lparr>sh_date = mkdate 2018 6 1, sh_minute = 1080, PRECIP = Some 1\<rparr>]"
  from daily_precipitation_rows [of "[2018]" ?rows]
  obtain ds where g: "get_PREC_data [2018] ?rows =
          \<lparr>index = map toordinal ds, index_name = ''Date'',
           columns =
             [(''PRECIP'', map (\<lambda>d. Some (\<Sum>r\<leftarrow>filter (\<lambda>r. sh_date r = d \<and> PRECIP r \<noteq> None) ?rows.
                                             the (PRECIP r))) ds),
              (''prec_count'', map (\<lambda>d. Some (real (length
                                     (filter (\<lambda>r. sh_date r = d \<and> PRECIP r \<noteq> None) ?rows)))) ds)]\<rparr>"
    and d: "distinct ds" and s: "set ds = {d. d \<in> sh_date ` set ?rows \<and> year d \<in> set [2018]}"
    by blast
  have "set ds = {mkdate 2018 6 1}" unfolding s by (auto simp: year_of_examples)
  with d have "ds = [mkdate 2018 6 1]"
    by (intro distinct_singleton_set)
  then show ?thesis using g by simp
qed

section \<open>Properties of the joins and of the writer\<close>

subsection \<open>Left joins on a right index without repeated labels\<close>

lemma positions_short:
  assumes "distinct r"
  shows "positions r k = [] \<or> (\<exists>j. positions r k = [j])"
proof (cases "positions r k")
  case Nil
  then show ?thesis by simp
next
  case (Cons j js)
  have d: "distinct (positions r k)" by (simp add: positions_def)
  have m: "\<And>x. x \<in> set (positions r k) \<Longrightarrow> x < length r \<and> r ! x = k"
    by (simp add: positions_def)
  have "js = []"
  proof (cases js)
    case Nil
    then show ?thesis .
  next
    case (Cons j' js')
    with \<open>positions r k = j # js\<close> have "j \<in> set (positions r k)" "j' \<in> set (positions r k)"
      by simp_all
    then have "j < length r" "j' < length r" "r ! j = r ! j'" using m by auto
    with assms have "j = j'" by (simp add: nth_eq_iff_index_eq)
    with d \<open>positions r k = j # js\<close> Cons show ?thesis by simp
  qed
  with Cons show ?thesis by simp
qed



lemma concat_singletons:
  "(\<And>i. i \<in> set xs \<Longrightarrow> g i = [h i]) \<Longrightarrow> concat (map g xs) = map h xs"
  by (induction xs) simp_all

lemma join_rows_distinct:
  assumes "distinct r"
  shows "join_rows l r
           = map (\<lambda>i. (i, case positions r (l ! i) of [] \<Rightarrow> None | j # js \<Rightarrow> Some j)) [0..<length l]"
  unfolding join_rows_def
proof (rule concat_singletons)
  fix i
  from positions_short [OF assms, of "l ! i"]
  show "(case positions r (l ! i) of [] \<Rightarrow> [(i, None)]
         | j # js \<Rightarrow> map (\<lambda>j. (i, Some j)) (j # js))
        = [(i, case positions r (l ! i) of [] \<Rightarrow> None | j # js \<Rightarrow> Some j)]"
    by (elim disjE exE) simp_all
qed

lemma take_left_all:
  assumes "distinct r" and "length c = length l"
  shows "take_left (join_rows l r) c = c"
proof -
  have "take_left (join_rows l r) c = map ((!) c) [0..<length l]"
    by (simp add: take_left_def join_rows_distinct [OF assms(1)] comp_def)
  moreover have "map ((!) c) [0..<length c] = c" by (rule map_nth)
  ultimately show ?thesis unfolding assms(2) by simp
qed



lemma reindex_col_self:
  assumes "distinct r" and "length c = length r"
  shows "reindex_col r c r = c"
proof (rule nth_equalityI)
  show "length (reindex_col r c r) = length c" using assms(2) by (simp add: reindex_col_def)
  fix i
  assume "i < length (reindex_col r c r)"
  then have i: "i < length r" by (simp add: reindex_col_def)
  have "map_of (zip r c) (r ! i) = Some (c ! i)"
    using assms i by (intro map_of_zip_nth) simp_all
  then show "reindex_col r c r ! i = c ! i" using i by (simp add: reindex_col_def)
qed

lemma length_reindex_col: "length (reindex_col r c l) = length l"
  by (simp add: reindex_col_def)


subsection \<open>The frame of the reconstructed LAI\<close>

lemma length_ffill_from: "length (ffill_from p xs) = length xs"
  by (induction p xs rule: ffill_from.induct) simp_all

lemma length_ffill: "length (ffill xs) = length xs"
  by (simp add: ffill_def length_ffill_from)

lemma length_bfill: "length (bfill xs) = length xs"
  by (simp add: bfill_def length_ffill)

lemma astype_int_Inr: "astype_int xs = Inr ys \<Longrightarrow> length ys = length xs"
  by (auto simp: astype_int_def split: if_splits)

lemma calendar_distinct: "calendar this_year years = Inr cal \<Longrightarrow> distinct cal"
  by (auto simp: calendar_def bind_def date_range_def split: sum.splits)

lemma padded_Inr:
  assumes "padded this_year years site rows = Inr m"
  shows "distinct (idx m)"
    and "length (LAI_col m) = length (idx m)" and "length (CALC_col m) = length (idx m)"
    and "length (CALC2_col m) = length (idx m)" and "length (Date2_col m) = length (idx m)"
    and "length (Date0_col m) = length (idx m)"
  using assms
  by (auto simp: padded_def bind_def Let_def length_ffill length_bfill length_reindex_col
        calendar_distinct split: sum.splits if_splits)

lemma triangle_Inr:
  assumes "triangle m = Inr pred"
    and "length (CALC_col m) = length (idx m)" and "length (CALC2_col m) = length (idx m)"
    and "length (Date2_col m) = length (idx m)" and "length (Date0_col m) = length (idx m)"
  shows "length pred = length (idx m)"
proof -
  from assms(1) obtain num den where
    n: "astype_int (col2 day_diff (Date2_col m) (map Some (idx m))) = Inr num"
    and d: "astype_int (col2 day_diff (Date2_col m) (Date0_col m)) = Inr den"
    and p: "pred = col2 cadd (CALC2_col m)
              (col2 cdiv (col2 cmul (col2 csub (CALC_col m) (CALC2_col m)) (int_col num))
                 (int_col den))"
    by (auto simp: triangle_def bind_def split: sum.splits)
  from astype_int_Inr [OF n] astype_int_Inr [OF d] assms(4,5)
  have "length num = length (idx m)" "length den = length (idx m)"
    by (simp_all add: length_col2)
  then show ?thesis using assms(2,3) by (simp add: p length_col2 int_col_def)
qed

lemma get_MODIS_data_Inr:
  assumes "get_MODIS_data this_year years site rows = Inr M"
  shows "\<exists>l. columns M = [(''LAI_pred'', l)] \<and> length l = length (index M)
           \<and> distinct (index M)"
proof -
  from assms obtain m pred l0 l where m: "padded this_year years site rows = Inr m"
    and t: "triangle m = Inr pred" and s: "set_first l0 pred = Inr l"
    and M: "M = \<lparr>index = idx m, index_name = [], columns = [(''LAI_pred'', l)]\<rparr>"
    by (auto simp: get_MODIS_data_def bind_def split: sum.splits)
  from triangle_Inr [OF t padded_Inr(3-6) [OF m]] have "length pred = length (idx m)" .
  moreover from s have "length l = length pred"
    by (auto simp: set_first_def split: list.splits)
  ultimately show ?thesis using padded_Inr(1) [OF m] by (simp add: M)
qed

subsection \<open>The writer's chain and the two driving tables\<close>

lemma single_shape:
  "col api n = Inr c \<Longrightarrow>
     get_cosmos_api_single api n = Inr \<lparr>index = index api, index_name = ''date'', columns = [(n, c)]\<rparr>"
  by (simp add: get_cosmos_api_single_def bind_def)

lemma single_Inr:
  "get_cosmos_api_single api n = Inr p \<Longrightarrow>
     \<exists>c. col api n = Inr c \<and> p = \<lparr>index = index api, index_name = ''date'', columns = [(n, c)]\<rparr>"
  by (auto simp: get_cosmos_api_single_def bind_def split: sum.splits)

lemma driving_api_shape:
  assumes "col api ''pe'' = Inr a" and "col api ''precip'' = Inr b"
    and "columns M = [(''LAI_pred'', l)]"
  shows "\<exists>ix a' b' l'. driving_api api M =
           Inr \<lparr>index = ix, index_name = ''date'',
                columns = [(''pe'', a'), (''precip'', b'), (''LAI_pred'', l')]\<rparr>"
  using assms by (simp add: driving_api_def single_shape bind_def join_def Let_def)

lemma driving_files_shape:
  assumes "columns P = [(''PE'', pe)]" and "columns Q = [(''PRECIP'', pr), (''prec_count'', cnt)]"
    and "columns M = [(''LAI_pred'', l)]"
  shows "\<exists>ix pe' pr' cnt' l'. driving_files P Q M =
           \<lparr>index = ix, index_name = index_name P,
            columns = [(''PE'', pe'), (''PRECIP'', pr'), (''prec_count'', cnt'), (''LAI_pred'', l')]\<rparr>"
  using assms by (simp add: driving_files_def join_def Let_def)

lemma columns_get_PE_data: "\<exists>pe. columns (get_PE_data years rows) = [(''PE'', pe)]"
  by (simp add: get_PE_data_def Let_def)

lemma columns_get_PREC_data:
  "\<exists>pr cnt. columns (get_PREC_data years rows) = [(''PRECIP'', pr), (''prec_count'', cnt)]"
  by (simp add: get_PREC_data_def Let_def)

lemma api_chain_ok:
  assumes "col api ''pe'' = Inr a" and "col api ''precip'' = Inr b"
    and "columns M = [(''LAI_pred'', l)]"
  shows "\<exists>u. bind (driving_api api M) (atmo_chain ''pe'' ''precip'') = Inr u
           \<and> map fst (columns u) = [''tAtm'', ''Prec'', ''rSoil'', ''rRoot'', ''hCritA'']"
proof -
  from driving_api_shape [OF assms] obtain ix a' b' l' where
    "driving_api api M = Inr \<lparr>index = ix, index_name = ''date'',
        columns = [(''pe'', a'), (''precip'', b'), (''LAI_pred'', l')]\<rparr>"
    by auto
  then show ?thesis by (simp add: bind_def chain_api)
qed

lemma files_chain_ok:
  assumes "columns P = [(''PE'', pe)]" and "columns Q = [(''PRECIP'', pr), (''prec_count'', cnt)]"
    and "columns M = [(''LAI_pred'', l)]"
  shows "\<exists>t. atmo_chain ''PE'' ''PRECIP'' (driving_files P Q M) = Inr t
           \<and> map fst (columns t)
               = [''tAtm'', ''Prec'', ''prec_count'', ''rSoil'', ''rRoot'', ''hCritA'']"
proof -
  from driving_files_shape [OF assms] obtain ix pe' pr' cnt' l' where
    "driving_files P Q M = \<lparr>index = ix, index_name = index_name P,
        columns = [(''PE'', pe'), (''PRECIP'', pr'), (''prec_count'', cnt'), (''LAI_pred'', l')]\<rparr>"
    by auto
  then show ?thesis by (simp add: chain_files)
qed

lemma paths_differ: "api_path \<noteq> files_path"
  by (simp add: api_path_def files_path_def)

lemma write_both:
  assumes "bind (driving_api api M) (atmo_chain ''pe'' ''precip'') = Inr u"
    and "atmo_chain ''PE'' ''PRECIP'' (driving_files P Q M) = Inr t"
    and "on_write fs api_path = Accepts" and "on_write fs files_path = Accepts"
  shows "write_atmo_data api P Q M fs
           = (Inr t, fs\<lparr>files := (files fs)(api_path \<mapsto> Whole u, files_path \<mapsto> Whole t)\<rparr>)"
  using assms by (simp add: write_atmo_data_def to_csv_def)

lemma write_second_refused:
  assumes "bind (driving_api api M) (atmo_chain ''pe'' ''precip'') = Inr u"
    and "atmo_chain ''PE'' ''PRECIP'' (driving_files P Q M) = Inr t"
    and "on_write fs api_path = Accepts" and "on_write fs files_path = Refused"
  shows "write_atmo_data api P Q M fs
           = (Inl OSError, fs\<lparr>files := (files fs)(api_path \<mapsto> Whole u)\<rparr>)"
  using assms by (simp add: write_atmo_data_def to_csv_def)

lemma write_Inl:
  assumes "write_atmo_data api P Q M fs = (Inl e, fs')"
  shows "fs' = fs
       \<or> (\<exists>u. fs' = fs\<lparr>files := (files fs)(api_path \<mapsto> Partial u)\<rparr>)
       \<or> (\<exists>u. fs' = fs\<lparr>files := (files fs)(api_path \<mapsto> Whole u)\<rparr>)
       \<or> (\<exists>u t. fs' = fs\<lparr>files := (files fs)(api_path \<mapsto> Whole u, files_path \<mapsto> Partial t)\<rparr>)"
  using assms
  by (auto simp: write_atmo_data_def to_csv_def split: sum.splits access.splits)

text \<open>
  C5 on the code. Whenever the response of the API has the columns \<open>pe\<close> and \<open>precip\<close>,
  the reconstructed LAI is a frame of the one column \<open>LAI_pred\<close> and both writes go
  through, \<open>write_atmo_data\<close> succeeds and writes both files. The table from the API has
  exactly the columns tAtm, Prec, rSoil, rRoot, hCritA. The table from the files has a
  sixth column, \<open>prec_count\<close> (the number of samples, scaled by 0.1 with the rest),
  which the specification does not allow.
\<close>

theorem written_tables_columns:
  assumes "col api_data ''pe'' = Inr a" and "col api_data ''precip'' = Inr b"
    and "columns MODIS_data = [(''LAI_pred'', l)]"
    and "on_write fs api_path = Accepts" and "on_write fs files_path = Accepts"
  shows "\<exists>t u fs'.
           write_atmo_data api_data (get_PE_data years daily) (get_PREC_data years sh) MODIS_data fs
             = (Inr t, fs')
         \<and> files fs' api_path = Some (Whole u) \<and> files fs' files_path = Some (Whole t)
         \<and> map fst (columns u) = [''tAtm'', ''Prec'', ''rSoil'', ''rRoot'', ''hCritA'']
         \<and> map fst (columns t)
             = [''tAtm'', ''Prec'', ''prec_count'', ''rSoil'', ''rRoot'', ''hCritA'']"
proof -
  from api_chain_ok [OF assms(1-3)] obtain u where
    u: "bind (driving_api api_data MODIS_data) (atmo_chain ''pe'' ''precip'') = Inr u"
    and cu: "map fst (columns u) = [''tAtm'', ''Prec'', ''rSoil'', ''rRoot'', ''hCritA'']"
    by auto
  obtain pe where pe: "columns (get_PE_data years daily) = [(''PE'', pe)]"
    using columns_get_PE_data [of years daily] by auto
  obtain pr cnt where
    pr: "columns (get_PREC_data years sh) = [(''PRECIP'', pr), (''prec_count'', cnt)]"
    using columns_get_PREC_data [of years sh] by auto
  from files_chain_ok [OF pe pr assms(3)] obtain t where
    t: "atmo_chain ''PE'' ''PRECIP''
          (driving_files (get_PE_data years daily) (get_PREC_data years sh) MODIS_data) = Inr t"
    and ct: "map fst (columns t)
               = [''tAtm'', ''Prec'', ''prec_count'', ''rSoil'', ''rRoot'', ''hCritA'']"
    by auto
  have "write_atmo_data api_data (get_PE_data years daily) (get_PREC_data years sh) MODIS_data fs
          = (Inr t, fs\<lparr>files := (files fs)(api_path \<mapsto> Whole u, files_path \<mapsto> Whole t)\<rparr>)"
    using u t assms(4,5) by (rule write_both)
  moreover have "files (fs\<lparr>files := (files fs)(api_path \<mapsto> Whole u, files_path \<mapsto> Whole t)\<rparr>)
                   api_path = Some (Whole u)"
    using paths_differ by simp
  moreover have "files (fs\<lparr>files := (files fs)(api_path \<mapsto> Whole u, files_path \<mapsto> Whole t)\<rparr>)
                   files_path = Some (Whole t)"
    by simp
  ultimately show ?thesis using cu ct by auto
qed

theorem written_tables_columns_witness:
  "col \<lparr>index = [736695], index_name = [],
        columns = [(''pe'', [Some 5]), (''precip'', [Some 10])]\<rparr> ''pe'' = Inr [Some 5]
   \<and> col \<lparr>index = [736695], index_name = [],
        columns = [(''pe'', [Some 5]), (''precip'', [Some 10])]\<rparr> ''precip'' = Inr [Some 10]
   \<and> columns \<lparr>index = [736695], index_name = [], columns = [(''LAI_pred'', [Some 0])]\<rparr>
        = [(''LAI_pred'', [Some 0])]
   \<and> on_write \<lparr>files = (\<lambda>p. None), on_write = (\<lambda>p. Accepts)\<rparr> api_path = Accepts
   \<and> on_write \<lparr>files = (\<lambda>p. None), on_write = (\<lambda>p. Accepts)\<rparr> files_path = Accepts
   \<and> (\<exists>t u fs'.
         write_atmo_data
           \<lparr>index = [736695], index_name = [],
            columns = [(''pe'', [Some 5]), (''precip'', [Some 10])]\<rparr>
           (get_PE_data [2018] [\<lparr>DATE_TIME = mkdate 2018 1 1, COSMOS_VWC = Some 30, PE = Some 5\<rparr>])
           (get_PREC_data [2018] [\<lparr>sh_date = mkdate 2018 1 1, sh_minute = 0, PRECIP = Some 10\<rparr>])
           \<lparr>index = [736695], index_name = [], columns = [(''LAI_pred'', [Some 0])]\<rparr>
           \<lparr>files = (\<lambda>p. None), on_write = (\<lambda>p. Accepts)\<rparr>
         = (Inr t, fs')
       \<and> files fs' api_path = Some (Whole u) \<and> files fs' files_path = Some (Whole t)
       \<and> map fst (columns u) = [''tAtm'', ''Prec'', ''rSoil'', ''rRoot'', ''hCritA'']
       \<and> map fst (columns t)
           = [''tAtm'', ''Prec'', ''prec_count'', ''rSoil'', ''rRoot'', ''hCritA''])"
proof -
  have 1: "col \<lparr>index = [736695], index_name = [],
        columns = [(''pe'', [Some 5]), (''precip'', [Some 10])]\<rparr> ''pe'' = Inr [Some 5]"
    by (simp add: col_def)
  have 2: "col \<lparr>index = [736695], index_name = [],
        columns = [(''pe'', [Some 5]), (''precip'', [Some 10])]\<rparr> ''precip'' = Inr [Some 10]"
    by (simp add: col_def)
  have 3: "columns \<lparr>index = [736695], index_name = [], columns = [(''LAI_pred'', [Some 0])]\<rparr>
        = [(''LAI_pred'', [Some 0])]"
    by simp
  have 4: "on_write \<lparr>files = (\<lambda>p. None), on_write = (\<lambda>p. Accepts)\<rparr> api_path = Accepts"
    and 5: "on_write \<lparr>files = (\<lambda>p. None), on_write = (\<lambda>p. Accepts)\<rparr> files_path = Accepts"
    by simp_all
  from written_tables_columns [OF 1 2 3 4 5, of "[2018]"
      "[\<lparr>DATE_TIME = mkdate 2018 1 1, COSMOS_VWC = Some 30, PE = Some 5\<rparr>]"
      "[\<lparr>sh_date = mkdate 2018 1 1, sh_minute = 0, PRECIP = Some 10\<rparr>]"]
  show ?thesis using 1 2 3 4 5 by auto
qed

subsection \<open>The frames the writer is given\<close>

lemma index_join: "distinct (index R) \<Longrightarrow> index (join L R) = index L"
  by (simp add: join_def Let_def take_left_all)




lemma distinct_get_PREC_data: "distinct (index (get_PREC_data years sh))"
proof -
  have "index (get_PREC_data years sh) = filter (\<lambda>d. year d \<in> set years) (group_dates sh)"
    by (simp add: get_PREC_data_def kept_groups Let_def comp_def toordinal_def)
  then show ?thesis using group_dates_distinct [of sh] by simp
qed

lemma concat_axis1_Inr:
  assumes "concat_axis1 [A, B, L] = Inr u" and "distinct (index L)"
  shows "distinct (index A)" and "distinct (index B)"
proof -
  from assms(1) have "(\<forall>f\<in>set [A, B, L]. distinct (index f))
                      \<or> (\<forall>f\<in>set [A, B, L]. index f = index A)"
    by (auto simp: concat_axis1_def split: if_splits)
  then show "distinct (index A)" and "distinct (index B)" using assms(2) by auto
qed

lemma concat_axis1_distinct:
  "distinct (index A) \<Longrightarrow> distinct (index B) \<Longrightarrow> distinct (index L) \<Longrightarrow>
     concat_axis1 [A, B, L] = Inr ()"
  by (simp add: concat_axis1_def)

lemma prepare_Inr:
  assumes "prepare this_year years site inp = Inr (api_data, PE_data, PREC_data, MODIS_data)"
  shows "\<exists>daily sh rows a b.
           daily_file inp = Inr daily \<and> PE_data = get_PE_data years daily
         \<and> sh_file inp = Inr sh \<and> PREC_data = get_PREC_data years sh
         \<and> modis_file inp = Inr rows
         \<and> get_MODIS_data this_year years site rows = Inr MODIS_data
         \<and> api_response inp = Inr api_data
         \<and> col api_data ''pe'' = Inr a \<and> col api_data ''precip'' = Inr b
         \<and> distinct (index PE_data) \<and> distinct (index api_data)"
proof -
  from assms obtain daily sh rows d1 p q d2 where
    1: "daily_file inp = Inr daily" "PE_data = get_PE_data years daily"
       "sh_file inp = Inr sh" "PREC_data = get_PREC_data years sh"
       "modis_file inp = Inr rows"
       "get_MODIS_data this_year years site rows = Inr MODIS_data"
       "api_response inp = Inr api_data"
    and c1: "concat_axis1 [PE_data, PREC_data, MODIS_data] = Inr d1"
    and p: "get_cosmos_api_single api_data ''pe'' = Inr p"
    and q: "get_cosmos_api_single api_data ''precip'' = Inr q"
    and c2: "concat_axis1 [p, q, MODIS_data] = Inr d2"
    by (auto simp: prepare_def bind_def Let_def split: sum.splits)
  from get_MODIS_data_Inr [OF 1(6)] have dm: "distinct (index MODIS_data)" by auto
  from single_Inr [OF p] single_Inr [OF q] obtain a b where
    ab: "col api_data ''pe'' = Inr a" "col api_data ''precip'' = Inr b" "index p = index api_data"
    by auto
  from concat_axis1_Inr(1) [OF c1 dm] concat_axis1_Inr(1) [OF c2 dm] ab(3)
  have "distinct (index PE_data)" "distinct (index api_data)" by simp_all
  with 1 ab(1,2) show ?thesis by auto
qed

lemma prepare_Inl_run:
  "prepare this_year years site inp = Inl e \<Longrightarrow> run this_year years site inp fs = (Inl e, fs)"
  by (simp add: run_def)

lemma prepare_ok:
  assumes "daily_file inp = Inr daily" and "sh_file inp = Inr sh" and "modis_file inp = Inr rows"
    and "get_MODIS_data this_year years site rows = Inr M"
    and "distinct (index (get_PE_data years daily))"
    and "api_response inp = Inr api"
    and "col api ''pe'' = Inr a" and "col api ''precip'' = Inr b" and "distinct (index api)"
  shows "prepare this_year years site inp
           = Inr (api, get_PE_data years daily, get_PREC_data years sh, M)"
proof -
  from get_MODIS_data_Inr [OF assms(4)] have dm: "distinct (index M)" by auto
  have c1: "concat_axis1 [get_PE_data years daily, get_PREC_data years sh, M] = Inr ()"
    using assms(5) distinct_get_PREC_data dm by (rule concat_axis1_distinct)
  have c2: "concat_axis1
              [\<lparr>index = index api, index_name = ''date'', columns = [(''pe'', a)]\<rparr>,
               \<lparr>index = index api, index_name = ''date'', columns = [(''precip'', b)]\<rparr>, M] = Inr ()"
    using assms(9) dm by (intro concat_axis1_distinct) simp_all
  show ?thesis
    using assms(1-4,6) c1 c2
    by (simp add: prepare_def bind_def Let_def single_shape [OF assms(7)] single_shape [OF assms(8)])
qed


subsection \<open>Runs\<close>

lemma prepared_chains:
  assumes "prepare this_year years site inp = Inr (api_data, PE_data, PREC_data, MODIS_data)"
  shows "\<exists>u t. bind (driving_api api_data MODIS_data) (atmo_chain ''pe'' ''precip'') = Inr u
           \<and> atmo_chain ''PE'' ''PRECIP'' (driving_files PE_data PREC_data MODIS_data) = Inr t"
proof -
  from prepare_Inr [OF assms] obtain daily sh rows a b where
    P: "PE_data = get_PE_data years daily" and Q: "PREC_data = get_PREC_data years sh"
    and M: "get_MODIS_data this_year years site rows = Inr MODIS_data"
    and a: "col api_data ''pe'' = Inr a" and b: "col api_data ''precip'' = Inr b"
    by auto
  from get_MODIS_data_Inr [OF M] obtain l where l: "columns MODIS_data = [(''LAI_pred'', l)]"
    by auto
  obtain pe where pe: "columns PE_data = [(''PE'', pe)]"
    unfolding P using columns_get_PE_data [of years daily] by auto
  obtain pr cnt where pr: "columns PREC_data = [(''PRECIP'', pr), (''prec_count'', cnt)]"
    unfolding Q using columns_get_PREC_data [of years sh] by auto
  from api_chain_ok [OF a b l] files_chain_ok [OF pe pr l] show ?thesis by auto
qed

text \<open>
  C8, as amended. The outputs are written straight to their final paths, the file from
  the API first, and no temporary file is used. A run that fails before the writer
  changes no file. A run that fails in the writer leaves every other file as it was, and
  the two outputs in one of four states: both as they were; the file from the API
  half-written; the file from the API rewritten and the file from the archive as it was;
  the file from the API rewritten and the file from the archive half-written.
\<close>

theorem failed_run_keeps_other_files:
  assumes "run this_year years site inp fs = (Inl e, fs')"
  shows "(fs' = fs
          \<or> (\<exists>u. fs' = fs\<lparr>files := (files fs)(api_path \<mapsto> Partial u)\<rparr>)
          \<or> (\<exists>u. fs' = fs\<lparr>files := (files fs)(api_path \<mapsto> Whole u)\<rparr>)
          \<or> (\<exists>u t. fs' = fs\<lparr>files := (files fs)(api_path \<mapsto> Whole u, files_path \<mapsto> Partial t)\<rparr>))
       \<and> (\<forall>e0. prepare this_year years site inp = Inl e0 \<longrightarrow> fs' = fs)
       \<and> (\<forall>p. p \<noteq> api_path \<and> p \<noteq> files_path \<longrightarrow> files fs' p = files fs p)
       \<and> on_write fs' = on_write fs"
proof (cases "prepare this_year years site inp")
  case (Inl e0)
  with assms have "fs' = fs" by (simp add: run_def)
  then show ?thesis by simp
next
  case (Inr r)
  obtain api_data PE_data PREC_data MODIS_data where
    r: "r = (api_data, PE_data, PREC_data, MODIS_data)"
    by (cases r) auto
  with Inr assms have "write_atmo_data api_data PE_data PREC_data MODIS_data fs = (Inl e, fs')"
    by (simp add: run_def)
  from write_Inl [OF this]
  have states: "fs' = fs
          \<or> (\<exists>u. fs' = fs\<lparr>files := (files fs)(api_path \<mapsto> Partial u)\<rparr>)
          \<or> (\<exists>u. fs' = fs\<lparr>files := (files fs)(api_path \<mapsto> Whole u)\<rparr>)
          \<or> (\<exists>u t. fs' = fs\<lparr>files := (files fs)(api_path \<mapsto> Whole u, files_path \<mapsto> Partial t)\<rparr>)" .
  then have "\<forall>p. p \<noteq> api_path \<and> p \<noteq> files_path \<longrightarrow> files fs' p = files fs p"
    and "on_write fs' = on_write fs"
    by auto
  with states Inr show ?thesis by simp
qed

section \<open>A complete run, failing at the second write\<close>

text \<open>
  A small input on which the run reaches the writer: the year 2018, PE on 1 and
  2 January, precipitation on 2 and 3 January, LAI samples on the first and on the last
  day of the year, and a response of the API for 1 January.
\<close>

lemma modis_2018_defined:
  "\<exists>M. get_MODIS_data this_year [2018] ''CHIMN''
         [\<lparr>Date = mkdate 2018 1 1, SITE_ID = ''CHIMN'', LAI = 1, Confidence = 0\<rparr>,
         \<lparr>Date = mkdate 2018 12 31, SITE_ID = ''CHIMN'', LAI = 2, Confidence = 1\<rparr>] = Inr M"
proof -
  have "case get_MODIS_data 0 [2018] ''CHIMN''
         [\<lparr>Date = mkdate 2018 1 1, SITE_ID = ''CHIMN'', LAI = 1, Confidence = 0\<rparr>,
         \<lparr>Date = mkdate 2018 12 31, SITE_ID = ''CHIMN'', LAI = 2, Confidence = 1\<rparr>]
        of Inl e \<Rightarrow> False | Inr M \<Rightarrow> True"
    by code_simp
  then show ?thesis unfolding get_MODIS_data_2018 [of this_year] by (simp split: sum.splits)
qed

lemma example_indexes:
  "index (get_PE_data [2018]
       [\<lparr>DATE_TIME = mkdate 2018 1 1, COSMOS_VWC = Some 30, PE = Some 5\<rparr>,
         \<lparr>DATE_TIME = mkdate 2018 1 2, COSMOS_VWC = Some 31, PE = Some 4\<rparr>]) = [mkdate 2018 1 1, mkdate 2018 1 2]"
  "index (get_PREC_data [2018]
       [\<lparr>sh_date = mkdate 2018 1 2, sh_minute = 0, PRECIP = Some 10\<rparr>,
         \<lparr>sh_date = mkdate 2018 1 3, sh_minute = 0, PRECIP = Some 7\<rparr>]) = [mkdate 2018 1 2, mkdate 2018 1 3]"
  "distinct [mkdate 2018 1 1, mkdate 2018 1 2]"
  by code_simp+

lemma example_prepare:
  "\<exists>M. prepare this_year [2018] ''CHIMN''
       \<lparr>daily_file = Inr [\<lparr>DATE_TIME = mkdate 2018 1 1, COSMOS_VWC = Some 30, PE = Some 5\<rparr>,
                          \<lparr>DATE_TIME = mkdate 2018 1 2, COSMOS_VWC = Some 31, PE = Some 4\<rparr>],
        sh_file = Inr [\<lparr>sh_date = mkdate 2018 1 2, sh_minute = 0, PRECIP = Some 10\<rparr>,
                       \<lparr>sh_date = mkdate 2018 1 3, sh_minute = 0, PRECIP = Some 7\<rparr>],
        modis_file = Inr
          [\<lparr>Date = mkdate 2018 1 1, SITE_ID = ''CHIMN'', LAI = 1, Confidence = 0\<rparr>,
           \<lparr>Date = mkdate 2018 12 31, SITE_ID = ''CHIMN'', LAI = 2, Confidence = 1\<rparr>],
        api_response = Inr
          \<lparr>index = [mkdate 2018 1 1], index_name = ''datetime'',
           columns = [(''pe'', [Some 5]), (''precip'', [Some 10])]\<rparr>\<rparr>
     = Inr (\<lparr>index = [mkdate 2018 1 1], index_name = ''datetime'',
          columns = [(''pe'', [Some 5]), (''precip'', [Some 10])]\<rparr>,
            get_PE_data [2018]
              [\<lparr>DATE_TIME = mkdate 2018 1 1, COSMOS_VWC = Some 30, PE = Some 5\<rparr>,
         \<lparr>DATE_TIME = mkdate 2018 1 2, COSMOS_VWC = Some 31, PE = Some 4\<rparr>],
            get_PREC_data [2018]
              [\<lparr>sh_date = mkdate 2018 1 2, sh_minute = 0, PRECIP = Some 10\<rparr>,
         \<lparr>sh_date = mkdate 2018 1 3, sh_minute = 0, PRECIP = Some 7\<rparr>], M)"
proof -
  let ?inp = "\<lparr>daily_file = Inr [\<lparr>DATE_TIME = mkdate 2018 1 1, COSMOS_VWC = Some 30, PE = Some 5\<rparr>,
                          \<lparr>DATE_TIME = mkdate 2018 1 2, COSMOS_VWC = Some 31, PE = Some 4\<rparr>],
        sh_file = Inr [\<lparr>sh_date = mkdate 2018 1 2, sh_minute = 0, PRECIP = Some 10\<rparr>,
                       \<lparr>sh_date = mkdate 2018 1 3, sh_minute = 0, PRECIP = Some 7\<rparr>],
        modis_file = Inr
          [\<lparr>Date = mkdate 2018 1 1, SITE_ID = ''CHIMN'', LAI = 1, Confidence = 0\<rparr>,
           \<lparr>Date = mkdate 2018 12 31, SITE_ID = ''CHIMN'', LAI = 2, Confidence = 1\<rparr>],
        api_response = Inr
          \<lparr>index = [mkdate 2018 1 1], index_name = ''datetime'',
           columns = [(''pe'', [Some 5]), (''precip'', [Some 10])]\<rparr>\<rparr>"
  from modis_2018_defined [of this_year] obtain M where
    M: "get_MODIS_data this_year [2018] ''CHIMN''
          [\<lparr>Date = mkdate 2018 1 1, SITE_ID = ''CHIMN'', LAI = 1, Confidence = 0\<rparr>,
         \<lparr>Date = mkdate 2018 12 31, SITE_ID = ''CHIMN'', LAI = 2, Confidence = 1\<rparr>] = Inr M"
    by auto
  have d: "distinct (index (get_PE_data [2018]
              [\<lparr>DATE_TIME = mkdate 2018 1 1, COSMOS_VWC = Some 30, PE = Some 5\<rparr>,
         \<lparr>DATE_TIME = mkdate 2018 1 2, COSMOS_VWC = Some 31, PE = Some 4\<rparr>]))"
    by (simp only: example_indexes)
  have "prepare this_year [2018] ''CHIMN'' ?inp
          = Inr (\<lparr>index = [mkdate 2018 1 1], index_name = ''datetime'',
          columns = [(''pe'', [Some 5]), (''precip'', [Some 10])]\<rparr>,
            get_PE_data [2018]
              [\<lparr>DATE_TIME = mkdate 2018 1 1, COSMOS_VWC = Some 30, PE = Some 5\<rparr>,
         \<lparr>DATE_TIME = mkdate 2018 1 2, COSMOS_VWC = Some 31, PE = Some 4\<rparr>],
            get_PREC_data [2018]
              [\<lparr>sh_date = mkdate 2018 1 2, sh_minute = 0, PRECIP = Some 10\<rparr>,
         \<lparr>sh_date = mkdate 2018 1 3, sh_minute = 0, PRECIP = Some 7\<rparr>], M)"
    by (rule prepare_ok [OF _ _ _ M d, where a = "[Some 5]" and b = "[Some 10]"])
       (simp_all add: col_def)
  then show ?thesis by (intro exI [of _ M])
qed

lemma example_failed_run:
  "\<exists>u. run 2026 [2018] ''CHIMN''
       \<lparr>daily_file = Inr [\<lparr>DATE_TIME = mkdate 2018 1 1, COSMOS_VWC = Some 30, PE = Some 5\<rparr>,
                          \<lparr>DATE_TIME = mkdate 2018 1 2, COSMOS_VWC = Some 31, PE = Some 4\<rparr>],
        sh_file = Inr [\<lparr>sh_date = mkdate 2018 1 2, sh_minute = 0, PRECIP = Some 10\<rparr>,
                       \<lparr>sh_date = mkdate 2018 1 3, sh_minute = 0, PRECIP = Some 7\<rparr>],
        modis_file = Inr
          [\<lparr>Date = mkdate 2018 1 1, SITE_ID = ''CHIMN'', LAI = 1, Confidence = 0\<rparr>,
           \<lparr>Date = mkdate 2018 12 31, SITE_ID = ''CHIMN'', LAI = 2, Confidence = 1\<rparr>],
        api_response = Inr
          \<lparr>index = [mkdate 2018 1 1], index_name = ''datetime'',
           columns = [(''pe'', [Some 5]), (''precip'', [Some 10])]\<rparr>\<rparr>
       \<lparr>files = (\<lambda>p. None), on_write = (\<lambda>p. if p = api_path then Accepts else Refused)\<rparr>
     = (Inl OSError, \<lparr>files = (\<lambda>p. None), on_write = (\<lambda>p. if p = api_path then Accepts else Refused)\<rparr>\<lparr>files := (\<lambda>p. None)(api_path \<mapsto> Whole u)\<rparr>)"
proof -
  let ?inp = "\<lparr>daily_file = Inr [\<lparr>DATE_TIME = mkdate 2018 1 1, COSMOS_VWC = Some 30, PE = Some 5\<rparr>,
                          \<lparr>DATE_TIME = mkdate 2018 1 2, COSMOS_VWC = Some 31, PE = Some 4\<rparr>],
        sh_file = Inr [\<lparr>sh_date = mkdate 2018 1 2, sh_minute = 0, PRECIP = Some 10\<rparr>,
                       \<lparr>sh_date = mkdate 2018 1 3, sh_minute = 0, PRECIP = Some 7\<rparr>],
        modis_file = Inr
          [\<lparr>Date = mkdate 2018 1 1, SITE_ID = ''CHIMN'', LAI = 1, Confidence = 0\<rparr>,
           \<lparr>Date = mkdate 2018 12 31, SITE_ID = ''CHIMN'', LAI = 2, Confidence = 1\<rparr>],
        api_response = Inr
          \<lparr>index = [mkdate 2018 1 1], index_name = ''datetime'',
           columns = [(''pe'', [Some 5]), (''precip'', [Some 10])]\<rparr>\<rparr>"
  let ?fs = "\<lparr>files = (\<lambda>p. None), on_write = (\<lambda>p. if p = api_path then Accepts else Refused)\<rparr>"
  from example_prepare [of 2026] obtain M where
    p: "prepare 2026 [2018] ''CHIMN'' ?inp
          = Inr (\<lparr>index = [mkdate 2018 1 1], index_name = ''datetime'',
          columns = [(''pe'', [Some 5]), (''precip'', [Some 10])]\<rparr>,
            get_PE_data [2018]
              [\<lparr>DATE_TIME = mkdate 2018 1 1, COSMOS_VWC = Some 30, PE = Some 5\<rparr>,
         \<lparr>DATE_TIME = mkdate 2018 1 2, COSMOS_VWC = Some 31, PE = Some 4\<rparr>],
            get_PREC_data [2018]
              [\<lparr>sh_date = mkdate 2018 1 2, sh_minute = 0, PRECIP = Some 10\<rparr>,
         \<lparr>sh_date = mkdate 2018 1 3, sh_minute = 0, PRECIP = Some 7\<rparr>], M)"
    by (elim exE)
  from prepared_chains [OF p] obtain u t where
    u: "bind (driving_api \<lparr>index = [mkdate 2018 1 1], index_name = ''datetime'',
          columns = [(''pe'', [Some 5]), (''precip'', [Some 10])]\<rparr> M) (atmo_chain ''pe'' ''precip'') = Inr u"
    and t: "atmo_chain ''PE'' ''PRECIP''
              (driving_files
                 (get_PE_data [2018]
                    [\<lparr>DATE_TIME = mkdate 2018 1 1, COSMOS_VWC = Some 30, PE = Some 5\<rparr>,
         \<lparr>DATE_TIME = mkdate 2018 1 2, COSMOS_VWC = Some 31, PE = Some 4\<rparr>])
                 (get_PREC_data [2018]
                    [\<lparr>sh_date = mkdate 2018 1 2, sh_minute = 0, PRECIP = Some 10\<rparr>,
         \<lparr>sh_date = mkdate 2018 1 3, sh_minute = 0, PRECIP = Some 7\<rparr>]) M) = Inr t"
    by (elim exE conjE)
  have w: "on_write ?fs api_path = Accepts" "on_write ?fs files_path = Refused"
    using paths_differ by auto
  from write_second_refused [OF u t w]
  have "run 2026 [2018] ''CHIMN'' ?inp ?fs
          = (Inl OSError, ?fs\<lparr>files := (files ?fs)(api_path \<mapsto> Whole u)\<rparr>)"
    by (simp add: run_def p)
  then show ?thesis by (intro exI [of _ u]) simp
qed

text \<open>
  C8 as stated fails. In this run no output file is on disk yet and
  \<open>data/atmosphere.csv\<close> cannot be opened: the run ends with the error of the second
  write, and \<open>data/atmosphere_API.csv\<close>, which was not there, has been written.
\<close>

theorem failed_run_changes_api_file_counterexample:
  "fst (run 2026 [2018] ''CHIMN''
       \<lparr>daily_file = Inr [\<lparr>DATE_TIME = mkdate 2018 1 1, COSMOS_VWC = Some 30, PE = Some 5\<rparr>,
                          \<lparr>DATE_TIME = mkdate 2018 1 2, COSMOS_VWC = Some 31, PE = Some 4\<rparr>],
        sh_file = Inr [\<lparr>sh_date = mkdate 2018 1 2, sh_minute = 0, PRECIP = Some 10\<rparr>,
                       \<lparr>sh_date = mkdate 2018 1 3, sh_minute = 0, PRECIP = Some 7\<rparr>],
        modis_file = Inr
          [\<lparr>Date = mkdate 2018 1 1, SITE_ID = ''CHIMN'', LAI = 1, Confidence = 0\<rparr>,
           \<lparr>Date = mkdate 2018 12 31, SITE_ID = ''CHIMN'', LAI = 2, Confidence = 1\<rparr>],
        api_response = Inr
          \<lparr>index = [mkdate 2018 1 1], index_name = ''datetime'',
           columns = [(''pe'', [Some 5]), (''precip'', [Some 10])]\<rparr>\<rparr>
       \<lparr>files = (\<lambda>p. None), on_write = (\<lambda>p. if p = api_path then Accepts else Refused)\<rparr>) = Inl OSError
   \<and> files \<lparr>files = (\<lambda>p. None), on_write = (\<lambda>p. if p = api_path then Accepts else Refused)\<rparr> api_path = None
   \<and> files (snd (run 2026 [2018] ''CHIMN''
       \<lparr>daily_file = Inr [\<lparr>DATE_TIME = mkdate 2018 1 1, COSMOS_VWC = Some 30, PE = Some 5\<rparr>,
                          \<lparr>DATE_TIME = mkdate 2018 1 2, COSMOS_VWC = Some 31, PE = Some 4\<rparr>],
        sh_file = Inr [\<lparr>sh_date = mkdate 2018 1 2, sh_minute = 0, PRECIP = Some 10\<rparr>,
                       \<lparr>sh_date = mkdate 2018 1 3, sh_minute = 0, PRECIP = Some 7\<rparr>],
        modis_file = Inr
          [\<lparr>Date = mkdate 2018 1 1, SITE_ID = ''CHIMN'', LAI = 1, Confidence = 0\<rparr>,
           \<lparr>Date = mkdate 2018 12 31, SITE_ID = ''CHIMN'', LAI = 2, Confidence = 1\<rparr>],
        api_response = Inr
          \<lparr>index = [mkdate 2018 1 1], index_name = ''datetime'',
           columns = [(''pe'', [Some 5]), (''precip'', [Some 10])]\<rparr>\<rparr>
       \<lparr>files = (\<lambda>p. None), on_write = (\<lambda>p. if p = api_path then Accepts else Refused)\<rparr>)) api_path \<noteq> None"
proof -
  from example_failed_run obtain u where
    "run 2026 [2018] ''CHIMN''
       \<lparr>daily_file = Inr [\<lparr>DATE_TIME = mkdate 2018 1 1, COSMOS_VWC = Some 30, PE = Some 5\<rparr>,
                          \<lparr>DATE_TIME = mkdate 2018 1 2, COSMOS_VWC = Some 31, PE = Some 4\<rparr>],
        sh_file = Inr [\<lparr>sh_date = mkdate 2018 1 2, sh_minute = 0, PRECIP = Some 10\<rparr>,
                       \<lparr>sh_date = mkdate 2018 1 3, sh_minute = 0, PRECIP = Some 7\<rparr>],
        modis_file = Inr
          [\<lparr>Date = mkdate 2018 1 1, SITE_ID = ''CHIMN'', LAI = 1, Confidence = 0\<rparr>,
           \<lparr>Date = mkdate 2018 12 31, SITE_ID = ''CHIMN'', LAI = 2, Confidence = 1\<rparr>],
        api_response = Inr
          \<lparr>index = [mkdate 2018 1 1], index_name = ''datetime'',
           columns = [(''pe'', [Some 5]), (''precip'', [Some 10])]\<rparr>\<rparr>
       \<lparr>files = (\<lambda>p. None), on_write = (\<lambda>p. if p = api_path then Accepts else Refused)\<rparr>
     = (Inl OSError, \<lparr>files = (\<lambda>p. None), on_write = (\<lambda>p. if p = api_path then Accepts else Refused)\<rparr>\<lparr>files := (\<lambda>p. None)(api_path \<mapsto> Whole u)\<rparr>)"
    by (elim exE)
  then show ?thesis by simp
qed

theorem failed_run_keeps_other_files_witness:
  "run 2026 [2018] ''CHIMN''
       \<lparr>daily_file = Inr [\<lparr>DATE_TIME = mkdate 2018 1 1, COSMOS_VWC = Some 30, PE = Some 5\<rparr>,
                          \<lparr>DATE_TIME = mkdate 2018 1 2, COSMOS_VWC = Some 31, PE = Some 4\<rparr>],
        sh_file = Inr [\<lparr>sh_date = mkdate 2018 1 2, sh_minute = 0, PRECIP = Some 10\<rparr>,
                       \<lparr>sh_date = mkdate 2018 1 3, sh_minute = 0, PRECIP = Some 7\<rparr>],
        modis_file = Inr
          [\<lparr>Date = mkdate 2018 1 1, SITE_ID = ''CHIMN'', LAI = 1, Confidence = 0\<rparr>,
           \<lparr>Date = mkdate 2018 12 31, SITE_ID = ''CHIMN'', LAI = 2, Confidence = 1\<rparr>],
        api_response = Inr
          \<lparr>index = [mkdate 2018 1 1], index_name = ''datetime'',
           columns = [(''pe'', [Some 5]), (''precip'', [Some 10])]\<rparr>\<rparr>
       \<lparr>files = (\<lambda>p. None), on_write = (\<lambda>p. if p = api_path then Accepts else Refused)\<rparr>
     = (Inl OSError, snd (run 2026 [2018] ''CHIMN''
       \<lparr>daily_file = Inr [\<lparr>DATE_TIME = mkdate 2018 1 1, COSMOS_VWC = Some 30, PE = Some 5\<rparr>,
                          \<lparr>DATE_TIME = mkdate 2018 1 2, COSMOS_VWC = Some 31, PE = Some 4\<rparr>],
        sh_file = Inr [\<lparr>sh_date = mkdate 2018 1 2, sh_minute = 0, PRECIP = Some 10\<rparr>,
                       \<lparr>sh_date = mkdate 2018 1 3, sh_minute = 0, PRECIP = Some 7\<rparr>],
        modis_file = Inr
          [\<lparr>Date = mkdate 2018 1 1, SITE_ID = ''CHIMN'', LAI = 1, Confidence = 0\<rparr>,
           \<lparr>Date = mkdate 2018 12 31, SITE_ID = ''CHIMN'', LAI = 2, Confidence = 1\<rparr>],
        api_response = Inr
          \<lparr>index = [mkdate 2018 1 1], index_name = ''datetime'',
           columns = [(''pe'', [Some 5]), (''precip'', [Some 10])]\<rparr>\<rparr>
       \<lparr>files = (\<lambda>p. None), on_write = (\<lambda>p. if p = api_path then Accepts else Refused)\<rparr>))
   \<and> files (snd (run 2026 [2018] ''CHIMN''
       \<lparr>daily_file = Inr [\<lparr>DATE_TIME = mkdate 2018 1 1, COSMOS_VWC = Some 30, PE = Some 5\<rparr>,
                          \<lparr>DATE_TIME = mkdate 2018 1 2, COSMOS_VWC = Some 31, PE = Some 4\<rparr>],
        sh_file = Inr [\<lparr>sh_date = mkdate 2018 1 2, sh_minute = 0, PRECIP = Some 10\<rparr>,
                       \<lparr>sh_date = mkdate 2018 1 3, sh_minute = 0, PRECIP = Some 7\<rparr>],
        modis_file = Inr
          [\<lparr>Date = mkdate 2018 1 1, SITE_ID = ''CHIMN'', LAI = 1, Confidence = 0\<rparr>,
           \<lparr>Date = mkdate 2018 12 31, SITE_ID = ''CHIMN'', LAI = 2, Confidence = 1\<rparr>],
        api_response = Inr
          \<lparr>index = [mkdate 2018 1 1], index_name = ''datetime'',
           columns = [(''pe'', [Some 5]), (''precip'', [Some 10])]\<rparr>\<rparr>
       \<lparr>files = (\<lambda>p. None), on_write = (\<lambda>p. if p = api_path then Accepts else Refused)\<rparr>)) files_path = files \<lparr>files = (\<lambda>p. None), on_write = (\<lambda>p. if p = api_path then Accepts else Refused)\<rparr> files_path
   \<and> on_write (snd (run 2026 [2018] ''CHIMN''
       \<lparr>daily_file = Inr [\<lparr>DATE_TIME = mkdate 2018 1 1, COSMOS_VWC = Some 30, PE = Some 5\<rparr>,
                          \<lparr>DATE_TIME = mkdate 2018 1 2, COSMOS_VWC = Some 31, PE = Some 4\<rparr>],
        sh_file = Inr [\<lparr>sh_date = mkdate 2018 1 2, sh_minute = 0, PRECIP = Some 10\<rparr>,
                       \<lparr>sh_date = mkdate 2018 1 3, sh_minute = 0, PRECIP = Some 7\<rparr>],
        modis_file = Inr
          [\<lparr>Date = mkdate 2018 1 1, SITE_ID = ''CHIMN'', LAI = 1, Confidence = 0\<rparr>,
           \<lparr>Date = mkdate 2018 12 31, SITE_ID = ''CHIMN'', LAI = 2, Confidence = 1\<rparr>],
        api_response = Inr
          \<lparr>index = [mkdate 2018 1 1], index_name = ''datetime'',
           columns = [(''pe'', [Some 5]), (''precip'', [Some 10])]\<rparr>\<rparr>
       \<lparr>files = (\<lambda>p. None), on_write = (\<lambda>p. if p = api_path then Accepts else Refused)\<rparr>)) = on_write \<lparr>files = (\<lambda>p. None), on_write = (\<lambda>p. if p = api_path then Accepts else Refused)\<rparr>"
proof -
  let ?run = "run 2026 [2018] ''CHIMN''
       \<lparr>daily_file = Inr [\<lparr>DATE_TIME = mkdate 2018 1 1, COSMOS_VWC = Some 30, PE = Some 5\<rparr>,
                          \<lparr>DATE_TIME = mkdate 2018 1 2, COSMOS_VWC = Some 31, PE = Some 4\<rparr>],
        sh_file = Inr [\<lparr>sh_date = mkdate 2018 1 2, sh_minute = 0, PRECIP = Some 10\<rparr>,
                       \<lparr>sh_date = mkdate 2018 1 3, sh_minute = 0, PRECIP = Some 7\<rparr>],
        modis_file = Inr
          [\<lparr>Date = mkdate 2018 1 1, SITE_ID = ''CHIMN'', LAI = 1, Confidence = 0\<rparr>,
           \<lparr>Date = mkdate 2018 12 31, SITE_ID = ''CHIMN'', LAI = 2, Confidence = 1\<rparr>],
        api_response = Inr
          \<lparr>index = [mkdate 2018 1 1], index_name = ''datetime'',
           columns = [(''pe'', [Some 5]), (''precip'', [Some 10])]\<rparr>\<rparr>
       \<lparr>files = (\<lambda>p. None), on_write = (\<lambda>p. if p = api_path then Accepts else Refused)\<rparr>"
  from example_failed_run obtain u where
    u: "?run = (Inl OSError, \<lparr>files = (\<lambda>p. None), on_write = (\<lambda>p. if p = api_path then Accepts else Refused)\<rparr>\<lparr>files := (\<lambda>p. None)(api_path \<mapsto> Whole u)\<rparr>)"
    by (elim exE)
  then have r: "?run = (Inl OSError, snd ?run)" by simp
  from failed_run_keeps_other_files [OF r]
  have "on_write (snd ?run) = on_write \<lparr>files = (\<lambda>p. None), on_write = (\<lambda>p. if p = api_path then Accepts else Refused)\<rparr>"
    by (elim conjE)
  moreover have "files (snd ?run) files_path = files \<lparr>files = (\<lambda>p. None), on_write = (\<lambda>p. if p = api_path then Accepts else Refused)\<rparr> files_path"
    unfolding u using paths_differ by simp
  ultimately show ?thesis using r by (intro conjI)
qed


end
